theory Spec2Isabelle
  imports Complex_Main
begin

section \<open>Values, tensors and errors\<close>

text \<open>
  The embedding of \<^verbatim>\<open>kaolin/ops/conversions/trianglemesh.py\<close>. A tensor is its
  nested list of entries together with the dtype and device it carries. Floating-point
  entries are idealised as rationals; a division by a zero scale, which gives an infinity
  or a NaN in floating point, is outside this idealisation and no theorem below relies
  on its value.
\<close>

datatype error = TypeError | RuntimeError | IndexError | InvalidArgument

datatype dtype = Float16 | Float32 | Float64

datatype device = CPU | CUDA nat

record 'a tensor =
  dtype :: dtype
  device :: device
  data :: 'a

type_synonym point = "rat \<times> rat \<times> rat"

type_synonym face = "int \<times> int \<times> int"

type_synonym voxel = "nat \<times> nat \<times> nat"

type_synonym grid = "rat list list list"

text \<open>
  The \<^verbatim>\<open>resolution\<close> argument is an arbitrary Python object: an \<^verbatim>\<open>int\<close>, or an
  object of another type (a float, a string, \<^verbatim>\<open>None\<close>). The subclass \<^verbatim>\<open>bool\<close> of
  \<^verbatim>\<open>int\<close> is not modelled.
\<close>

datatype pyobj = PyInt int | PyOther

text \<open>
  What the rasterizer hands back for a batch of point clouds: a dense tensor of shape
  \<open>(B, R, R, R)\<close>, or a sparse one, the list of occupied cells of every item.
\<close>

datatype voxelgrid = Dense "grid list" | Sparse "voxel list list"

type_synonym subdivider = "point list \<Rightarrow> face list \<Rightarrow> int \<Rightarrow> error + point list"

type_synonym rasterizer = "point list list \<Rightarrow> int \<Rightarrow> bool \<Rightarrow> error + voxelgrid"

definition ebind :: "error + 'a \<Rightarrow> ('a \<Rightarrow> error + 'b) \<Rightarrow> error + 'b" where
  "ebind m f = (case m of Inl e \<Rightarrow> Inl e | Inr x \<Rightarrow> f x)"

fun emap :: "('a \<Rightarrow> error + 'b) \<Rightarrow> 'a list \<Rightarrow> error + 'b list" where
  "emap f [] = Inr []"
| "emap f (x # xs) =
     (case f x of Inl e \<Rightarrow> Inl e
      | Inr y \<Rightarrow> (case emap f xs of Inl e \<Rightarrow> Inl e | Inr ys \<Rightarrow> Inr (y # ys)))"

section \<open>The tensor operations the conversion uses\<close>

fun psub :: "point \<Rightarrow> point \<Rightarrow> point" where
  "psub (x, y, z) (a, b, c) = (x - a, y - b, z - c)"

fun pdiv :: "point \<Rightarrow> rat \<Rightarrow> point" where
  "pdiv (x, y, z) s = (x / s, y / s, z / s)"

fun pmin :: "point \<Rightarrow> point \<Rightarrow> point" where
  "pmin (x, y, z) (a, b, c) = (min x a, min y b, min z c)"

fun pmax :: "point \<Rightarrow> point \<Rightarrow> point" where
  "pmax (x, y, z) (a, b, c) = (max x a, max y b, max z c)"

fun max_axis :: "point \<Rightarrow> rat" where
  "max_axis (x, y, z) = max x (max y z)"

text \<open>
  Elementwise operations broadcast along the batch dimension: equal sizes pair up, a
  size of one is repeated, anything else is refused by the runtime.
\<close>

definition broadcast2 :: "('a \<Rightarrow> 'b \<Rightarrow> 'c) \<Rightarrow> 'a list \<Rightarrow> 'b list \<Rightarrow> error + 'c list" where
  "broadcast2 f xs ys =
     (if length xs = length ys then Inr (map2 f xs ys)
      else if length xs = 1 then Inr (map (f (hd xs)) ys)
      else if length ys = 1 then Inr (map (\<lambda>x. f x (hd ys)) xs)
      else Inl RuntimeError)"

text \<open>
  \<^verbatim>\<open>torch.min(vertices, dim=1)[0]\<close> and \<^verbatim>\<open>torch.max(vertices, dim=1)[0]\<close>: the reduction
  over the vertices of every item, which raises an \<^verbatim>\<open>IndexError\<close> when there is no vertex
  to reduce.
\<close>

definition reduce_dim1 :: "(point \<Rightarrow> point \<Rightarrow> point) \<Rightarrow> point list list \<Rightarrow> error + point list" where
  "reduce_dim1 f vs =
     (if [] \<in> set vs then Inl IndexError
      else Inr (map (\<lambda>ps. foldl f (hd ps) (tl ps)) vs))"

definition torch_min_dim1 :: "point list list \<Rightarrow> error + point list" where
  "torch_min_dim1 = reduce_dim1 pmin"

definition torch_max_dim1 :: "point list list \<Rightarrow> error + point list" where
  "torch_max_dim1 = reduce_dim1 pmax"

definition zeros_grid :: "nat \<Rightarrow> grid" where
  "zeros_grid R = replicate R (replicate R (replicate R 0))"

text \<open>\<^verbatim>\<open>torch.zeros((batch_size, resolution, resolution, resolution))\<close>: a negative size raises.\<close>

definition torch_zeros :: "nat \<Rightarrow> int \<Rightarrow> error + grid list" where
  "torch_zeros B r = (if r < 0 then Inl RuntimeError else Inr (replicate B (zeros_grid (nat r))))"

definition cube :: "nat \<Rightarrow> grid \<Rightarrow> bool" where
  "cube R g \<longleftrightarrow>
     length g = R \<and> (\<forall>plane \<in> set g. length plane = R \<and> (\<forall>row \<in> set plane. length row = R))"

text \<open>A batched tensor of shape \<open>(B, R, R, R)\<close>.\<close>

definition has_shape :: "grid list \<Rightarrow> nat \<Rightarrow> nat \<Rightarrow> bool" where
  "has_shape gs B R \<longleftrightarrow> length gs = B \<and> (\<forall>g \<in> set gs. cube R g)"

text \<open>
  \<^verbatim>\<open>voxelgrids[i] = voxelgrid\<close>: the copy into slot \<open>i\<close> of the dense tensor. A dense
  value of shape \<open>(1, R, R, R)\<close>, the shape of a rasterizer result, is copied, and a sparse
  value cannot be copied into a dense tensor: the runtime raises. A dense value of another
  shape is refused here as well; the runtime would still broadcast one whose dimensions are
  of size one, which no rasterizer result is.
\<close>

definition setitem :: "grid list \<Rightarrow> nat \<Rightarrow> voxelgrid \<Rightarrow> error + grid list" where
  "setitem voxelgrids i v =
     (if length voxelgrids \<le> i then Inl IndexError
      else case v of
        Sparse _ \<Rightarrow> Inl RuntimeError
      | Dense gs \<Rightarrow>
          (case gs of
             [g] \<Rightarrow> if cube (length (voxelgrids ! i)) g then Inr (voxelgrids[i := g])
                    else Inl RuntimeError
           | _ \<Rightarrow> Inl RuntimeError))"

definition getitem :: "'a list \<Rightarrow> nat \<Rightarrow> error + 'a" where
  "getitem xs i = (if i < length xs then Inr (xs ! i) else Inl IndexError)"

section \<open>The conversion\<close>

text \<open>Line 83: \<^verbatim>\<open>(vertices - origin.unsqueeze(1)) / scale.view(-1, 1, 1)\<close>.\<close>

definition normalize :: "point list list \<Rightarrow> point list \<Rightarrow> rat list \<Rightarrow> error + point list list" where
  "normalize vertices origin scale =
     ebind (broadcast2 (\<lambda>vs orig. map (\<lambda>v. psub v orig) vs) vertices origin)
       (\<lambda>shifted. broadcast2 (\<lambda>ps s. map (\<lambda>p. pdiv p s) ps) shifted scale)"

text \<open>Lines 72 to 74.\<close>

definition resolve_origin :: "point list list \<Rightarrow> point list option \<Rightarrow> error + point list" where
  "resolve_origin vertices origin =
     (case origin of None \<Rightarrow> torch_min_dim1 vertices | Some orig \<Rightarrow> Inr orig)"

text \<open>Lines 76 to 78; \<open>origin\<close> is the origin lines 72 to 74 have left.\<close>

definition resolve_scale :: "point list list \<Rightarrow> point list \<Rightarrow> rat list option \<Rightarrow> error + rat list" where
  "resolve_scale vertices origin scale =
     (case scale of
        None \<Rightarrow>
          ebind (torch_max_dim1 vertices)
            (\<lambda>max_val. ebind (broadcast2 psub max_val origin) (\<lambda>d. Inr (map max_axis d)))
      | Some s \<Rightarrow> Inr s)"

text \<open>
  The loop of lines 85 to 91 over \<^verbatim>\<open>range(batch_size)\<close>, with the two helpers it calls
  (\<^verbatim>\<open>_unbatched_subdivide_vertices\<close> and \<^verbatim>\<open>_base_points_to_voxelgrids\<close>) as parameters.
\<close>

fun for_range :: "subdivider \<Rightarrow> rasterizer \<Rightarrow> point list list \<Rightarrow> face list \<Rightarrow> int \<Rightarrow> bool
    \<Rightarrow> nat list \<Rightarrow> grid list \<Rightarrow> error + grid list" where
  "for_range sub rast batched_points faces resolution return_sparse [] voxelgrids = Inr voxelgrids"
| "for_range sub rast batched_points faces resolution return_sparse (i # rest) voxelgrids =
     ebind (getitem batched_points i) (\<lambda>item.
     ebind (sub item faces resolution) (\<lambda>points.
     ebind (rast [points] resolution return_sparse) (\<lambda>voxelgrid.
     ebind (setitem voxelgrids i voxelgrid) (\<lambda>voxelgrids'.
     for_range sub rast batched_points faces resolution return_sparse rest voxelgrids'))))"

definition trianglemeshes_to_voxelgrids_with ::
    "subdivider \<Rightarrow> rasterizer \<Rightarrow> point list list tensor \<Rightarrow> face list \<Rightarrow> pyobj
      \<Rightarrow> point list option \<Rightarrow> rat list option \<Rightarrow> bool \<Rightarrow> error + grid list tensor" where
  "trianglemeshes_to_voxelgrids_with sub rast vertices faces resolution origin scale return_sparse =
     (case resolution of
        PyOther \<Rightarrow> Inl TypeError
      | PyInt r \<Rightarrow>
          ebind (resolve_origin (data vertices) origin) (\<lambda>origin'.
          ebind (resolve_scale (data vertices) origin' scale) (\<lambda>scale'.
          let batch_size = length (data vertices) in
          ebind (torch_zeros batch_size r) (\<lambda>voxelgrids.
          ebind (normalize (data vertices) origin' scale') (\<lambda>batched_points.
          ebind (for_range sub rast batched_points faces r return_sparse [0..<batch_size] voxelgrids)
            (\<lambda>voxelgrids'.
          Inr \<lparr>dtype = dtype vertices, device = device vertices, data = voxelgrids'\<rparr>))))))"

section \<open>The subdivider\<close>

text \<open>
  Modelled from the spec: \<^verbatim>\<open>_unbatched_subdivide_vertices\<close> of
  \<^verbatim>\<open>kaolin/ops/mesh/trianglemesh.py\<close> is not among the sources. Section 4.2 of the
  specification: every face is split into four sub-triangles through the midpoints of its
  edges, for a number of rounds fixed in advance from its longest edge and the voxel width
  \<open>1 / resolution\<close>; the result is the original vertices and every vertex of every round. A
  face index outside \<open>[0, V)\<close> is an \<open>InvalidArgument\<close> (section 7).
\<close>

type_synonym triangle = "point \<times> point \<times> point"

fun midpoint :: "point \<Rightarrow> point \<Rightarrow> point" where
  "midpoint (x, y, z) (a, b, c) = ((x + a) / 2, (y + b) / 2, (z + c) / 2)"

fun sqdist :: "point \<Rightarrow> point \<Rightarrow> rat" where
  "sqdist (x, y, z) (a, b, c) = (x - a)\<^sup>2 + (y - b)\<^sup>2 + (z - c)\<^sup>2"

fun split4 :: "triangle \<Rightarrow> triangle list" where
  "split4 (a, b, c) =
     (let ab = midpoint a b; bc = midpoint b c; ca = midpoint c a
      in [(a, ab, ca), (ab, b, bc), (ca, bc, c), (ab, bc, ca)])"

fun longest_edge_sq :: "triangle \<Rightarrow> rat" where
  "longest_edge_sq (a, b, c) = max (sqdist a b) (max (sqdist b c) (sqdist c a))"

fun tri_vertices :: "triangle \<Rightarrow> point list" where
  "tri_vertices (a, b, c) = [a, b, c]"

text \<open>
  The number of halvings that bring a length whose square is \<open>q\<close> voxel widths squared
  down to one voxel width: the least \<open>k\<close> with \<open>q \<le> 4 ^ k\<close>.
\<close>

function rounds :: "rat \<Rightarrow> nat" where
  "rounds q = (if q \<le> 1 then 0 else Suc (rounds (q / 4)))"
  by pat_completeness auto
termination
proof (relation "measure (\<lambda>q. nat \<lceil>q\<rceil>)")
  show "wf (measure (\<lambda>q. nat \<lceil>q\<rceil>))"
    by simp
next
  fix q :: rat
  assume big: "\<not> q \<le> 1"
  have above: "q \<le> of_int \<lceil>q\<rceil>"
    by (rule le_of_int_ceiling)
  have "1 < \<lceil>q\<rceil>"
    using big by (simp add: less_ceiling_iff)
  then have two: "(2::rat) \<le> of_int \<lceil>q\<rceil>"
    by linarith
  with above have "q / 4 \<le> of_int \<lceil>q\<rceil> - 1"
    by linarith
  then have "\<lceil>q / 4\<rceil> < \<lceil>q\<rceil>"
    by (simp add: ceiling_less_iff)
  moreover have "0 < \<lceil>q\<rceil>"
    using two by linarith
  ultimately show "(q / 4, q) \<in> measure (\<lambda>q. nat \<lceil>q\<rceil>)"
    by simp
qed

declare rounds.simps [simp del]

definition subdivision_depth :: "int \<Rightarrow> triangle \<Rightarrow> nat" where
  "subdivision_depth resolution t = rounds (longest_edge_sq t * (of_int resolution)\<^sup>2)"

text \<open>The triangles of every round, the given ones first.\<close>

fun refine :: "nat \<Rightarrow> triangle list \<Rightarrow> triangle list list" where
  "refine 0 ts = [ts]"
| "refine (Suc k) ts = ts # refine k (concat (map split4 ts))"

definition face_points :: "int \<Rightarrow> triangle \<Rightarrow> point list" where
  "face_points resolution t =
     concat (map tri_vertices (concat (refine (subdivision_depth resolution t) [t])))"

definition vertex_at :: "point list \<Rightarrow> int \<Rightarrow> error + point" where
  "vertex_at vertices i =
     (if 0 \<le> i \<and> i < int (length vertices) then Inr (vertices ! nat i) else Inl InvalidArgument)"

fun face_triangle :: "point list \<Rightarrow> face \<Rightarrow> error + triangle" where
  "face_triangle vertices (i, j, k) =
     ebind (vertex_at vertices i) (\<lambda>a.
     ebind (vertex_at vertices j) (\<lambda>b.
     ebind (vertex_at vertices k) (\<lambda>c. Inr (a, b, c))))"

text \<open>
  Modelled from the spec: \<^verbatim>\<open>_unbatched_subdivide_vertices\<close>, whose source is missing. The
  original vertices, then the vertices of every round of every face (section 4.2); a face
  index out of range is an \<open>InvalidArgument\<close> (section 7).
\<close>

definition unbatched_subdivide_vertices :: subdivider where
  "unbatched_subdivide_vertices vertices faces resolution =
     ebind (emap (face_triangle vertices) faces)
       (\<lambda>ts. Inr (vertices @ concat (map (face_points resolution) ts)))"

text \<open>
  The edges of a triangle and their Euclidean lengths, in which the specification states
  the bound of the subdivision; the code of the model works with the squares.
\<close>

fun tri_edges :: "triangle \<Rightarrow> (point \<times> point) list" where
  "tri_edges (a, b, c) = [(a, b), (b, c), (c, a)]"

definition edge_length :: "point \<Rightarrow> point \<Rightarrow> real" where
  "edge_length a b = sqrt (of_rat (sqdist a b))"

definition longest_edge :: "triangle \<Rightarrow> real" where
  "longest_edge t = sqrt (of_rat (longest_edge_sq t))"

text \<open>Faces whose indices all lie in \<open>[0, V)\<close>, and the triangles they select.\<close>

definition faces_valid :: "nat \<Rightarrow> face list \<Rightarrow> bool" where
  "faces_valid V faces \<longleftrightarrow>
     (\<forall>(i, j, k) \<in> set faces. 0 \<le> i \<and> i < int V \<and> 0 \<le> j \<and> j < int V \<and> 0 \<le> k \<and> k < int V)"

definition triangles_of :: "point list \<Rightarrow> face list \<Rightarrow> triangle list" where
  "triangles_of vertices faces =
     map (\<lambda>(i, j, k). (vertices ! nat i, vertices ! nat j, vertices ! nat k)) faces"

section \<open>The rasterizer\<close>

text \<open>
  Modelled from the spec: \<^verbatim>\<open>_base_points_to_voxelgrids\<close> of
  \<^verbatim>\<open>kaolin/ops/conversions/pointcloud.py\<close> is not among the sources. Section 4.3 of the
  specification: a point \<open>p\<close> goes to the cell \<open>floor (p * resolution)\<close> on every axis,
  clamped into the grid (a coordinate of exactly 1 lands in cell \<open>resolution - 1\<close>); the
  cell is set to 1. Dense mode gives the whole array, sparse mode the distinct occupied
  cells.
\<close>

definition voxel_index :: "int \<Rightarrow> rat \<Rightarrow> nat" where
  "voxel_index resolution p = nat (max 0 (min \<lfloor>p * of_int resolution\<rfloor> (resolution - 1)))"

fun point_voxel :: "int \<Rightarrow> point \<Rightarrow> voxel" where
  "point_voxel resolution (x, y, z) =
     (voxel_index resolution x, voxel_index resolution y, voxel_index resolution z)"

definition occupied :: "int \<Rightarrow> point list \<Rightarrow> voxel list" where
  "occupied resolution points = remdups (map (point_voxel resolution) points)"

definition dense_grid :: "nat \<Rightarrow> voxel list \<Rightarrow> grid" where
  "dense_grid R cells =
     map (\<lambda>i. map (\<lambda>j. map (\<lambda>k. if (i, j, k) \<in> set cells then 1 else 0) [0..<R]) [0..<R]) [0..<R]"

text \<open>
  Modelled from the spec: \<^verbatim>\<open>_base_points_to_voxelgrids\<close>, whose source is missing. One
  grid per point cloud of the batch: the dense array, or the distinct occupied cells
  (section 4.3).
\<close>

definition base_points_to_voxelgrids :: rasterizer where
  "base_points_to_voxelgrids points resolution return_sparse =
     Inr (if return_sparse then Sparse (map (occupied resolution) points)
          else Dense (map (\<lambda>ps. dense_grid (nat resolution) (occupied resolution ps)) points))"

text \<open>
  The cell of a coordinate as section 4.3 of the specification words it: inside the grid,
  \<open>floor (p * resolution)\<close> for \<open>0 \<le> p < 1\<close>, and \<open>resolution - 1\<close> for \<open>p = 1\<close>.
\<close>

definition in_cell :: "int \<Rightarrow> rat \<Rightarrow> nat \<Rightarrow> bool" where
  "in_cell r p i \<longleftrightarrow>
     i < nat r \<and> (0 \<le> p \<and> p < 1 \<longrightarrow> int i = \<lfloor>p * of_int r\<rfloor>) \<and> (p = 1 \<longrightarrow> int i = r - 1)"

section \<open>The entry point\<close>

definition trianglemeshes_to_voxelgrids ::
    "point list list tensor \<Rightarrow> face list \<Rightarrow> pyobj \<Rightarrow> point list option \<Rightarrow> rat list option
      \<Rightarrow> bool \<Rightarrow> error + grid list tensor" where
  "trianglemeshes_to_voxelgrids =
     trianglemeshes_to_voxelgrids_with unbatched_subdivide_vertices base_points_to_voxelgrids"

section \<open>Normalization as the specification words it\<close>

text \<open>
  Section 3 and 4.1 of the specification: the default origin is the per-axis minimum of an
  item's vertices, the default scale the maximum over the axes of the per-axis maximum
  minus the origin, and a vertex \<open>v\<close> is mapped to \<open>(v - origin) / scale\<close> with the one scalar
  scale on all three axes. The code is compared with these below.
\<close>

definition spec_axis_min :: "point list \<Rightarrow> point" where
  "spec_axis_min vs = (Min (fst ` set vs), Min ((\<lambda>v. fst (snd v)) ` set vs), Min ((\<lambda>v. snd (snd v)) ` set vs))"

definition spec_axis_max :: "point list \<Rightarrow> point" where
  "spec_axis_max vs = (Max (fst ` set vs), Max ((\<lambda>v. fst (snd v)) ` set vs), Max ((\<lambda>v. snd (snd v)) ` set vs))"

definition spec_default_scale :: "point list \<Rightarrow> point \<Rightarrow> rat" where
  "spec_default_scale vs orig =
     (case (spec_axis_max vs, orig) of
        ((mx, my, mz), (ox, oy, oz)) \<Rightarrow> Max {mx - ox, my - oy, mz - oz})"

fun spec_normalized :: "point \<Rightarrow> rat \<Rightarrow> point \<Rightarrow> point" where
  "spec_normalized (ox, oy, oz) s (x, y, z) = ((x - ox) / s, (y - oy) / s, (z - oz) / s)"


section \<open>Example inputs\<close>

text \<open>The mesh of the docstring: one triangle in the plane \<open>y = 0\<close>.\<close>

definition example_vertices :: "point list list tensor" where
  "example_vertices = \<lparr>dtype = Float32, device = CPU, data = [[(0, 0, 0), (1, 0, 0), (0, 0, 1)]]\<rparr>"

definition example_faces :: "face list" where
  "example_faces = [(0, 1, 2)]"

text \<open>A batch of two meshes with the same face: the triangle above and one in the plane \<open>x = 2\<close>.\<close>

definition example_batch :: "point list list tensor" where
  "example_batch = \<lparr>dtype = Float64, device = CUDA 0,
     data = [[(0, 0, 0), (1, 0, 0), (0, 0, 1)], [(2, 2, 2), (2, 4, 2), (2, 2, 4)]]\<rparr>"

section \<open>Lemmas on the error monad and the loop\<close>

lemma ebind_Inr_iff: "ebind m f = Inr y \<longleftrightarrow> (\<exists>x. m = Inr x \<and> f x = Inr y)"
  by (cases m) (simp_all add: ebind_def)

lemma ebind_Inr [simp]: "ebind (Inr x) f = f x"
  by (simp add: ebind_def)

lemma ebind_Inl [simp]: "ebind (Inl e) f = Inl e"
  by (simp add: ebind_def)

lemma cube_zeros_grid: "cube R (zeros_grid R)"
  by (simp add: cube_def zeros_grid_def)

lemma cube_dense_grid: "cube R (dense_grid R cells)"
  by (auto simp: cube_def dense_grid_def)

lemma cube_length: "cube R g \<Longrightarrow> length g = R"
  by (simp add: cube_def)

lemma setitem_Inr_iff:
  "setitem vgs i v = Inr vgs' \<longleftrightarrow>
     i < length vgs \<and> (\<exists>g. v = Dense [g] \<and> cube (length (vgs ! i)) g \<and> vgs' = vgs[i := g])"
  by (auto simp: setitem_def split: voxelgrid.splits list.splits)

lemma for_range_result:
  assumes "for_range sub rast bp faces r sp is vgs = Inr vgs'" and "distinct is"
  shows "length vgs' = length vgs
    \<and> (\<forall>j. j \<notin> set is \<longrightarrow> vgs' ! j = vgs ! j)
    \<and> (\<forall>i \<in> set is. i < length vgs \<and> (\<exists>item pts. getitem bp i = Inr item \<and> sub item faces r = Inr pts
          \<and> rast [pts] r sp = Inr (Dense [vgs' ! i]) \<and> cube (length (vgs ! i)) (vgs' ! i)))"
  using assms
proof (induction "is" arbitrary: vgs)
  case Nil
  then show ?case by simp
next
  case (Cons i rest)
  from Cons.prems(1) obtain item pts g where
    item: "getitem bp i = Inr item" and pts: "sub item faces r = Inr pts"
    and g: "rast [pts] r sp = Inr (Dense [g])" and i: "i < length vgs"
    and cb: "cube (length (vgs ! i)) g"
    and rest: "for_range sub rast bp faces r sp rest (vgs[i := g]) = Inr vgs'"
    by (auto simp: ebind_Inr_iff setitem_Inr_iff)
  from Cons.prems(2) have d: "distinct rest" and ni: "i \<notin> set rest"
    by simp_all
  note ih = Cons.IH [OF rest d]
  from ih have len: "length vgs' = length vgs"
    by simp
  from ih ni i have at_i: "vgs' ! i = g"
    by simp
  have other: "\<forall>j. j \<notin> set (i # rest) \<longrightarrow> vgs' ! j = vgs ! j"
    using ih by auto
  have here: "\<forall>k \<in> set rest. k < length vgs \<and> (\<exists>item pts. getitem bp k = Inr item \<and> sub item faces r = Inr pts
          \<and> rast [pts] r sp = Inr (Dense [vgs' ! k]) \<and> cube (length (vgs ! k)) (vgs' ! k))"
  proof
    fix k assume k: "k \<in> set rest"
    with ni have "k \<noteq> i" by auto
    then have "vgs[i := g] ! k = vgs ! k" by simp
    with ih k show "k < length vgs \<and> (\<exists>item pts. getitem bp k = Inr item \<and> sub item faces r = Inr pts
          \<and> rast [pts] r sp = Inr (Dense [vgs' ! k]) \<and> cube (length (vgs ! k)) (vgs' ! k))"
      by auto
  qed
  show ?case
    using len other here item pts g i cb at_i by auto
qed

lemma for_range_success:
  assumes "distinct is"
    and "\<forall>i \<in> set is. i < length vgs \<and> (\<exists>item pts g. getitem bp i = Inr item \<and> sub item faces r = Inr pts
          \<and> rast [pts] r sp = Inr (Dense [g]) \<and> cube (length (vgs ! i)) g)"
  shows "\<exists>vgs'. for_range sub rast bp faces r sp is vgs = Inr vgs'"
  using assms
proof (induction "is" arbitrary: vgs)
  case Nil
  then show ?case by simp
next
  case (Cons i rest)
  from Cons.prems(2) obtain item pts g where
    item: "getitem bp i = Inr item" and pts: "sub item faces r = Inr pts"
    and g: "rast [pts] r sp = Inr (Dense [g])" and i: "i < length vgs"
    and cb: "cube (length (vgs ! i)) g"
    by auto
  have set: "setitem vgs i (Dense [g]) = Inr (vgs[i := g])"
    using i cb by (simp add: setitem_Inr_iff)
  from Cons.prems(1) have d: "distinct rest" and ni: "i \<notin> set rest"
    by simp_all
  have "\<forall>k \<in> set rest. k < length (vgs[i := g]) \<and> (\<exists>item pts g'. getitem bp k = Inr item \<and> sub item faces r = Inr pts
          \<and> rast [pts] r sp = Inr (Dense [g']) \<and> cube (length (vgs[i := g] ! k)) g')"
  proof
    fix k assume k: "k \<in> set rest"
    with ni have "k \<noteq> i" by auto
    then have "vgs[i := g] ! k = vgs ! k" by simp
    with Cons.prems(2) k show "k < length (vgs[i := g]) \<and> (\<exists>item pts g'. getitem bp k = Inr item \<and> sub item faces r = Inr pts
          \<and> rast [pts] r sp = Inr (Dense [g']) \<and> cube (length (vgs[i := g] ! k)) g')"
      by auto
  qed
  from Cons.IH [OF d this] obtain vgs' where "for_range sub rast bp faces r sp rest (vgs[i := g]) = Inr vgs'"
    by blast
  then show ?case
    using item pts g set by simp
qed

lemma broadcast2_same_length:
  "length xs = length ys \<Longrightarrow> broadcast2 f xs ys = Inr (map2 f xs ys)"
  by (simp add: broadcast2_def)

lemma normalize_same_length:
  assumes "length orig = length vs" and "length sc = length vs"
  shows "normalize vs orig sc =
    Inr (map2 (\<lambda>ps s. map (\<lambda>p. pdiv p s) ps) (map2 (\<lambda>ps c. map (\<lambda>v. psub v c) ps) vs orig) sc)"
  using assms by (simp add: normalize_def broadcast2_same_length)

lemma normalize_nth:
  assumes "length orig = length vs" and "length sc = length vs" and "i < length vs"
    and "normalize vs orig sc = Inr bp"
  shows "length bp = length vs" and "bp ! i = map (\<lambda>v. pdiv (psub v (orig ! i)) (sc ! i)) (vs ! i)"
  using assms by (auto simp: normalize_same_length)

lemma torch_zeros_Inr_iff:
  "torch_zeros B r = Inr vgs \<longleftrightarrow> 0 \<le> r \<and> vgs = replicate B (zeros_grid (nat r))"
  by (auto simp: torch_zeros_def)

lemma convert_Inr_iff:
  "trianglemeshes_to_voxelgrids_with sub rast vertices faces resolution origin scale sp = Inr out \<longleftrightarrow>
     (\<exists>r origin' scale' bp vgs. resolution = PyInt r \<and> 0 \<le> r
        \<and> resolve_origin (data vertices) origin = Inr origin'
        \<and> resolve_scale (data vertices) origin' scale = Inr scale'
        \<and> normalize (data vertices) origin' scale' = Inr bp
        \<and> for_range sub rast bp faces r sp [0..<length (data vertices)]
              (replicate (length (data vertices)) (zeros_grid (nat r))) = Inr vgs
        \<and> out = \<lparr>dtype = dtype vertices, device = device vertices, data = vgs\<rparr>)"
  by (cases resolution)
     (auto simp: trianglemeshes_to_voxelgrids_with_def ebind_Inr_iff torch_zeros_Inr_iff Let_def)

lemma for_range_upt:
  assumes "for_range sub rast bp faces r sp [0..<B] (replicate B z) = Inr vgs"
  shows "length vgs = B"
    and "i < B \<Longrightarrow> \<exists>item pts. getitem bp i = Inr item \<and> sub item faces r = Inr pts
          \<and> rast [pts] r sp = Inr (Dense [vgs ! i]) \<and> cube (length z) (vgs ! i)"
proof -
  note res = for_range_result [OF assms distinct_upt]
  from res show "length vgs = B"
    by simp
  assume i: "i < B"
  then have "i \<in> set [0..<B]"
    by simp
  with res have "\<exists>item pts. getitem bp i = Inr item \<and> sub item faces r = Inr pts
          \<and> rast [pts] r sp = Inr (Dense [vgs ! i]) \<and> cube (length (replicate B z ! i)) (vgs ! i)"
    by blast
  with i show "\<exists>item pts. getitem bp i = Inr item \<and> sub item faces r = Inr pts
          \<and> rast [pts] r sp = Inr (Dense [vgs ! i]) \<and> cube (length z) (vgs ! i)"
    by simp
qed

section \<open>Shape, dtype and device of the result\<close>

text \<open>
  Claim C9. Every successful call returns a tensor of shape \<open>(B, R, R, R)\<close>, where \<open>B\<close>
  is the number of batch items and \<open>R\<close> the resolution, with the dtype and the device of
  the vertices tensor. This holds whatever the two helpers compute.
\<close>

theorem result_shape_dtype_device:
  assumes "trianglemeshes_to_voxelgrids_with sub rast vertices faces resolution origin scale sp = Inr out"
  shows "\<exists>r. resolution = PyInt r \<and> 0 \<le> r
      \<and> has_shape (data out) (length (data vertices)) (nat r)
      \<and> dtype out = dtype vertices \<and> device out = device vertices"
proof -
  let ?B = "length (data vertices)"
  from assms obtain r origin' scale' bp vgs where
    r: "resolution = PyInt r" "0 \<le> r"
    and loop: "for_range sub rast bp faces r sp [0..<?B] (replicate ?B (zeros_grid (nat r))) = Inr vgs"
    and out: "out = \<lparr>dtype = dtype vertices, device = device vertices, data = vgs\<rparr>"
    unfolding convert_Inr_iff by blast
  note res = for_range_upt [OF loop]
  from res(1) have len: "length vgs = ?B" .
  have "cube (nat r) g" if "g \<in> set vgs" for g
  proof -
    from that len obtain i where i: "i < ?B" and g: "g = vgs ! i"
      by (metis in_set_conv_nth)
    from res(2) [OF i] have "cube (length (zeros_grid (nat r))) (vgs ! i)"
      by blast
    then show ?thesis
      using g by (simp add: zeros_grid_def)
  qed
  with len have "has_shape vgs ?B (nat r)"
    by (simp add: has_shape_def)
  with r out show ?thesis
    by simp
qed

section \<open>Batch independence\<close>

text \<open>
  Claim C5. With origin and scale supplied, one entry per item, the \<open>i\<close>-th grid of a
  successful call on the whole batch is the grid of the call on the batch that holds item
  \<open>i\<close> alone, with that item's origin and scale and the same faces, resolution and
  \<^verbatim>\<open>return_sparse\<close>. This holds whatever the two helpers compute.
\<close>

theorem batch_independence:
  assumes conv: "trianglemeshes_to_voxelgrids_with sub rast vertices faces resolution
      (Some origin) (Some scale) return_sparse = Inr out"
    and lo: "length origin = length (data vertices)"
    and ls: "length scale = length (data vertices)"
    and i: "i < length (data vertices)"
  shows "trianglemeshes_to_voxelgrids_with sub rast (vertices\<lparr>data := [data vertices ! i]\<rparr>) faces resolution
      (Some [origin ! i]) (Some [scale ! i]) return_sparse = Inr (out\<lparr>data := [data out ! i]\<rparr>)"
proof -
  let ?B = "length (data vertices)"
  from conv obtain r bp vgs where
    r: "resolution = PyInt r" "0 \<le> r"
    and bp: "normalize (data vertices) origin scale = Inr bp"
    and loop: "for_range sub rast bp faces r return_sparse [0..<?B] (replicate ?B (zeros_grid (nat r))) = Inr vgs"
    and out: "out = \<lparr>dtype = dtype vertices, device = device vertices, data = vgs\<rparr>"
    unfolding convert_Inr_iff by (auto simp: resolve_origin_def resolve_scale_def)
  let ?item = "map (\<lambda>v. pdiv (psub v (origin ! i)) (scale ! i)) (data vertices ! i)"
  from normalize_nth [OF lo ls i bp] have bpi: "length bp = ?B" "bp ! i = ?item"
    by simp_all
  from for_range_upt(2) [OF loop i] obtain item pts where
    item: "getitem bp i = Inr item" and pts: "sub item faces r = Inr pts"
    and g: "rast [pts] r return_sparse = Inr (Dense [vgs ! i])"
    and cb: "cube (length (zeros_grid (nat r))) (vgs ! i)"
    by blast
  from item bpi i have item_eq: "item = ?item"
    by (simp add: getitem_def)
  from cb have cb': "cube (nat r) (vgs ! i)"
    by (simp add: zeros_grid_def)
  have single: "normalize [data vertices ! i] [origin ! i] [scale ! i] = Inr [?item]"
    by (simp add: normalize_same_length)
  have "for_range sub rast [?item] faces r return_sparse [0..<1] (replicate 1 (zeros_grid (nat r)))
      = Inr [vgs ! i]"
    using pts g cb' by (simp add: item_eq getitem_def setitem_def zeros_grid_def)
  with single r out show ?thesis
    by (simp add: trianglemeshes_to_voxelgrids_with_def resolve_origin_def resolve_scale_def
        torch_zeros_def)
qed

section \<open>The dense result in closed form\<close>

lemma emap_face_triangle:
  "faces_valid (length vs) faces \<Longrightarrow> emap (face_triangle vs) faces = Inr (triangles_of vs faces)"
  by (induction faces) (auto simp: faces_valid_def triangles_of_def vertex_at_def)

lemma subdivide_valid:
  "faces_valid (length vs) faces \<Longrightarrow>
     unbatched_subdivide_vertices vs faces r =
       Inr (vs @ concat (map (face_points r) (triangles_of vs faces)))"
  by (simp add: unbatched_subdivide_vertices_def emap_face_triangle)

lemma for_range_closed:
  assumes each: "\<And>i. i < length bp \<Longrightarrow> \<exists>pts. sub (bp ! i) faces r = Inr pts
      \<and> rast [pts] r sp = Inr (Dense [G (bp ! i)]) \<and> cube (length z) (G (bp ! i))"
  shows "for_range sub rast bp faces r sp [0..<length bp] (replicate (length bp) z) = Inr (map G bp)"
proof -
  have "\<forall>i \<in> set [0..<length bp]. i < length (replicate (length bp) z) \<and>
      (\<exists>item pts g. getitem bp i = Inr item \<and> sub item faces r = Inr pts
          \<and> rast [pts] r sp = Inr (Dense [g]) \<and> cube (length (replicate (length bp) z ! i)) g)"
  proof
    fix i assume "i \<in> set [0..<length bp]"
    then have i: "i < length bp"
      by simp
    from each [OF i] obtain pts where "sub (bp ! i) faces r = Inr pts"
      "rast [pts] r sp = Inr (Dense [G (bp ! i)])" "cube (length z) (G (bp ! i))"
      by blast
    with i show "i < length (replicate (length bp) z) \<and>
      (\<exists>item pts g. getitem bp i = Inr item \<and> sub item faces r = Inr pts
          \<and> rast [pts] r sp = Inr (Dense [g]) \<and> cube (length (replicate (length bp) z ! i)) g)"
      by (auto simp: getitem_def)
  qed
  with distinct_upt
  have "\<exists>vgs. for_range sub rast bp faces r sp [0..<length bp] (replicate (length bp) z) = Inr vgs"
    by (rule for_range_success)
  then obtain vgs where
    vgs: "for_range sub rast bp faces r sp [0..<length bp] (replicate (length bp) z) = Inr vgs"
    by blast
  note res = for_range_upt [OF vgs]
  have "vgs = map G bp"
  proof (rule nth_equalityI)
    show "length vgs = length (map G bp)"
      using res(1) by simp
  next
    fix i assume "i < length vgs"
    with res(1) have i: "i < length bp"
      by simp
    from res(2) [OF i] obtain pts where "sub (bp ! i) faces r = Inr pts"
      and "rast [pts] r sp = Inr (Dense [vgs ! i])"
      by (auto simp: getitem_def i)
    moreover from each [OF i] obtain pts' where "sub (bp ! i) faces r = Inr pts'"
      and "rast [pts'] r sp = Inr (Dense [G (bp ! i)])"
      by blast
    ultimately have "vgs ! i = G (bp ! i)"
      by simp
    with i show "vgs ! i = map G bp ! i"
      by simp
  qed
  with vgs show ?thesis
    by simp
qed

lemma dense_closed_form:
  assumes lo: "length origin = length (data vertices)"
    and ls: "length scale = length (data vertices)"
    and r: "0 \<le> r"
    and valid: "\<forall>vs \<in> set (data vertices). faces_valid (length vs) faces"
  shows "trianglemeshes_to_voxelgrids vertices faces (PyInt r) (Some origin) (Some scale) False =
    Inr \<lparr>dtype = dtype vertices, device = device vertices,
      data = map (\<lambda>item. dense_grid (nat r)
                 (occupied r (item @ concat (map (face_points r) (triangles_of item faces)))))
               (map2 (\<lambda>ps s. map (\<lambda>p. pdiv p s) ps)
                  (map2 (\<lambda>ps c. map (\<lambda>v. psub v c) ps) (data vertices) origin) scale)\<rparr>"
proof -
  let ?bp = "map2 (\<lambda>ps s. map (\<lambda>p. pdiv p s) ps)
                  (map2 (\<lambda>ps c. map (\<lambda>v. psub v c) ps) (data vertices) origin) scale"
  let ?G = "\<lambda>item. dense_grid (nat r)
                 (occupied r (item @ concat (map (face_points r) (triangles_of item faces))))"
  have norm: "normalize (data vertices) origin scale = Inr ?bp"
    by (rule normalize_same_length [OF lo ls])
  have len: "length ?bp = length (data vertices)"
    using lo ls by simp
  have each: "\<exists>pts. unbatched_subdivide_vertices (?bp ! i) faces r = Inr pts
      \<and> base_points_to_voxelgrids [pts] r False = Inr (Dense [?G (?bp ! i)])
      \<and> cube (length (zeros_grid (nat r))) (?G (?bp ! i))" if "i < length ?bp" for i
  proof -
    from that len have i: "i < length (data vertices)"
      by simp
    with lo ls have "length (?bp ! i) = length (data vertices ! i)"
      by simp
    moreover from valid i have "faces_valid (length (data vertices ! i)) faces"
      by simp
    ultimately have "faces_valid (length (?bp ! i)) faces"
      by simp
    from subdivide_valid [OF this] show ?thesis
      by (simp add: base_points_to_voxelgrids_def cube_dense_grid zeros_grid_def)
  qed
  have "for_range unbatched_subdivide_vertices base_points_to_voxelgrids ?bp faces r False
      [0..<length ?bp] (replicate (length ?bp) (zeros_grid (nat r))) = Inr (map ?G ?bp)"
    by (rule for_range_closed) (rule each)
  then show ?thesis
    using r norm len
    by (simp add: trianglemeshes_to_voxelgrids_def trianglemeshes_to_voxelgrids_with_def
        resolve_origin_def resolve_scale_def torch_zeros_def)
qed

section \<open>The example of the docstring\<close>

lemma floor_rat_numeral_div: "\<lfloor>numeral a / numeral b :: rat\<rfloor> = numeral a div numeral b"
  by (metis floor_divide_of_int_eq of_int_numeral)

lemma upt_3: "[0..<3] = [0, 1, 2::nat]"
  by (simp add: numeral_3_eq_3)

lemma dense_grid_3:
  "dense_grid 3 cells =
     map (\<lambda>i. map (\<lambda>j. map (\<lambda>k. if (i, j, k) \<in> set cells then 1 else 0) [0, 1, 2]) [0, 1, 2]) [0, 1, 2]"
  unfolding dense_grid_def upt_3 ..

lemma example_depth: "subdivision_depth 3 ((0, 0, 0), (1, 0, 0), (0, 0, 1)) = 3"
  by (simp add: subdivision_depth_def rounds.simps)

lemma example_cells:
  "set (occupied 3 ([(0, 0, 0), (1, 0, 0), (0, 0, 1)] @ face_points 3 ((0, 0, 0), (1, 0, 0), (0, 0, 1)))) =
     {(0, 0, 0), (0, 0, 1), (0, 0, 2), (1, 0, 0), (1, 0, 1), (2, 0, 0)}"
  unfolding occupied_def set_remdups face_points_def example_depth
  by (simp add: Let_def numeral_3_eq_3 voxel_index_def floor_rat_numeral_div insert_commute)

lemma example_eval:
  "trianglemeshes_to_voxelgrids example_vertices example_faces (PyInt 3) (Some [(0, 0, 0)]) (Some [1]) False =
     Inr \<lparr>dtype = Float32, device = CPU,
       data = [[[[1, 1, 1], [0, 0, 0], [0, 0, 0]],
                [[1, 1, 0], [0, 0, 0], [0, 0, 0]],
                [[1, 0, 0], [0, 0, 0], [0, 0, 0]]]]\<rparr>"
proof -
  have valid: "\<forall>vs \<in> set (data example_vertices). faces_valid (length vs) example_faces"
    by (simp add: example_vertices_def example_faces_def faces_valid_def)
  have tri: "triangles_of [(0, 0, 0), (1, 0, 0), (0, 0, 1)] example_faces = [((0, 0, 0), (1, 0, 0), (0, 0, 1))]"
    by (simp add: triangles_of_def example_faces_def)
  have grid: "dense_grid 3 (occupied 3 ([(0, 0, 0), (1, 0, 0), (0, 0, 1)] @
            face_points 3 ((0, 0, 0), (1, 0, 0), (0, 0, 1)))) =
      [[[1, 1, 1], [0, 0, 0], [0, 0, 0]], [[1, 1, 0], [0, 0, 0], [0, 0, 0]], [[1, 0, 0], [0, 0, 0], [0, 0, 0]]]"
    unfolding dense_grid_3 example_cells by simp
  have "trianglemeshes_to_voxelgrids example_vertices example_faces (PyInt 3) (Some [(0, 0, 0)]) (Some [1]) False =
     Inr \<lparr>dtype = Float32, device = CPU,
       data = [dense_grid 3 (occupied 3 ([(0, 0, 0), (1, 0, 0), (0, 0, 1)] @
            face_points 3 ((0, 0, 0), (1, 0, 0), (0, 0, 1))))]\<rparr>"
    using dense_closed_form [OF _ _ _ valid, of "[(0, 0, 0)]" "[1]" 3] tri
    by (simp add: example_vertices_def)
  then show ?thesis
    unfolding grid .
qed

text \<open>
  Claim C1. For the single triangle \<open>(0,0,0), (1,0,0), (0,0,1)\<close> with faces \<open>[[0,1,2]]\<close>,
  resolution 3, origin \<open>(0,0,0)\<close> and scale 1, the conversion returns the 3 x 3 x 3 grid
  whose layer \<open>x = 0\<close> is occupied at \<open>(y,z) = (0,0), (0,1), (0,2)\<close>, layer \<open>x = 1\<close> at
  \<open>(0,0), (0,1)\<close>, layer \<open>x = 2\<close> at \<open>(0,0)\<close>, and which is 0 everywhere else. The entry
  \<open>data ! 0 ! x ! y ! z\<close> is the cell \<open>(x, y, z)\<close>.
\<close>

theorem docstring_example:
  "trianglemeshes_to_voxelgrids
     \<lparr>dtype = Float32, device = CPU, data = [[(0, 0, 0), (1, 0, 0), (0, 0, 1)]]\<rparr>
     [(0, 1, 2)] (PyInt 3) (Some [(0, 0, 0)]) (Some [1]) False =
   Inr \<lparr>dtype = Float32, device = CPU,
     data = [[[[1, 1, 1], [0, 0, 0], [0, 0, 0]],
              [[1, 1, 0], [0, 0, 0], [0, 0, 0]],
              [[1, 0, 0], [0, 0, 0], [0, 0, 0]]]]\<rparr>"
  using example_eval by (simp add: example_vertices_def example_faces_def)

section \<open>Sparse mode\<close>

lemma sparse_mode_fails:
  assumes "data vertices \<noteq> []"
  shows "trianglemeshes_to_voxelgrids vertices faces resolution origin scale True \<noteq> Inr out"
proof
  assume conv: "trianglemeshes_to_voxelgrids vertices faces resolution origin scale True = Inr out"
  let ?B = "length (data vertices)"
  from conv obtain r bp vgs where
    loop: "for_range unbatched_subdivide_vertices base_points_to_voxelgrids bp faces r True
      [0..<?B] (replicate ?B (zeros_grid (nat r))) = Inr vgs"
    unfolding trianglemeshes_to_voxelgrids_def convert_Inr_iff by blast
  from assms have "0 < ?B"
    by simp
  from for_range_upt(2) [OF loop this] obtain pts where
    "base_points_to_voxelgrids [pts] r True = Inr (Dense [vgs ! 0])"
    by blast
  then show False
    by (simp add: base_points_to_voxelgrids_def)
qed

text \<open>
  Claim C2. With \<^verbatim>\<open>return_sparse\<close> set, the conversion is to return a sparse
  representation of every item, equivalent to the dense result. The code copies the sparse
  tensor of the rasterizer into a slot of the dense tensor of line 81, which the runtime
  refuses: on the example of the docstring the call fails, and by \<open>sparse_mode_fails\<close> so
  does every call on a non-empty batch.
\<close>

theorem sparse_example_fails:
  "trianglemeshes_to_voxelgrids
     \<lparr>dtype = Float32, device = CPU, data = [[(0, 0, 0), (1, 0, 0), (0, 0, 1)]]\<rparr>
     [(0, 1, 2)] (PyInt 3) (Some [(0, 0, 0)]) (Some [1]) True = Inl RuntimeError"
proof -
  have "faces_valid (length [(0, 0, 0), (1, 0, 0), (0, 0, 1 :: rat)]) [(0, 1, 2)]"
    by (simp add: faces_valid_def)
  from subdivide_valid [OF this] show ?thesis
    by (simp add: trianglemeshes_to_voxelgrids_def trianglemeshes_to_voxelgrids_with_def
        resolve_origin_def resolve_scale_def torch_zeros_def normalize_def broadcast2_def
        getitem_def base_points_to_voxelgrids_def setitem_def)
qed

section \<open>A batch of two meshes\<close>

lemma upt_2: "[0..<2] = [0, 1::nat]"
  by (simp add: numeral_2_eq_2)

lemma dense_grid_2:
  "dense_grid 2 cells =
     map (\<lambda>i. map (\<lambda>j. map (\<lambda>k. if (i, j, k) \<in> set cells then 1 else 0) [0, 1]) [0, 1]) [0, 1]"
  unfolding dense_grid_def upt_2 ..

lemma batch_depth:
  "subdivision_depth 2 ((0, 0, 0), (1, 0, 0), (0, 0, 1)) = 2"
  "subdivision_depth 2 ((0, 0, 0), (0, 1, 0), (0, 0, 1)) = 2"
  by (simp_all add: subdivision_depth_def rounds.simps)

lemma batch_cells:
  "set (occupied 2 ([(0, 0, 0), (1, 0, 0), (0, 0, 1)] @ face_points 2 ((0, 0, 0), (1, 0, 0), (0, 0, 1)))) =
     {(0, 0, 0), (0, 0, 1), (1, 0, 0), (1, 0, 1)}"
  "set (occupied 2 ([(0, 0, 0), (0, 1, 0), (0, 0, 1)] @ face_points 2 ((0, 0, 0), (0, 1, 0), (0, 0, 1)))) =
     {(0, 0, 0), (0, 0, 1), (0, 1, 0), (0, 1, 1)}"
  unfolding occupied_def set_remdups face_points_def batch_depth
  by (simp_all add: Let_def numeral_2_eq_2 voxel_index_def floor_rat_numeral_div insert_commute)

lemma batch_grids:
  "dense_grid 2 (occupied 2 ([(0, 0, 0), (1, 0, 0), (0, 0, 1)] @
       face_points 2 ((0, 0, 0), (1, 0, 0), (0, 0, 1)))) = [[[1, 1], [0, 0]], [[1, 1], [0, 0]]]"
  "dense_grid 2 (occupied 2 ([(0, 0, 0), (0, 1, 0), (0, 0, 1)] @
       face_points 2 ((0, 0, 0), (0, 1, 0), (0, 0, 1)))) = [[[1, 1], [1, 1]], [[0, 0], [0, 0]]]"
  unfolding dense_grid_2 batch_cells by simp_all

lemma batch_eval:
  "trianglemeshes_to_voxelgrids example_batch example_faces (PyInt 2)
     (Some [(0, 0, 0), (2, 2, 2)]) (Some [1, 2]) False =
   Inr \<lparr>dtype = Float64, device = CUDA 0,
     data = [[[[1, 1], [0, 0]], [[1, 1], [0, 0]]], [[[1, 1], [1, 1]], [[0, 0], [0, 0]]]]\<rparr>"
proof -
  have valid: "\<forall>vs \<in> set (data example_batch). faces_valid (length vs) example_faces"
    by (simp add: example_batch_def example_faces_def faces_valid_def)
  have tri: "triangles_of [(0, 0, 0), (1, 0, 0), (0, 0, 1)] example_faces = [((0, 0, 0), (1, 0, 0), (0, 0, 1))]"
    "triangles_of [(0, 0, 0), (0, 1, 0), (0, 0, 1)] example_faces = [((0, 0, 0), (0, 1, 0), (0, 0, 1))]"
    by (simp_all add: triangles_of_def example_faces_def)
  have "trianglemeshes_to_voxelgrids example_batch example_faces (PyInt 2)
     (Some [(0, 0, 0), (2, 2, 2)]) (Some [1, 2]) False =
     Inr \<lparr>dtype = Float64, device = CUDA 0,
       data = [dense_grid 2 (occupied 2 ([(0, 0, 0), (1, 0, 0), (0, 0, 1)] @
                 face_points 2 ((0, 0, 0), (1, 0, 0), (0, 0, 1)))),
               dense_grid 2 (occupied 2 ([(0, 0, 0), (0, 1, 0), (0, 0, 1)] @
                 face_points 2 ((0, 0, 0), (0, 1, 0), (0, 0, 1))))]\<rparr>"
    using dense_closed_form [OF _ _ _ valid, of "[(0, 0, 0), (2, 2, 2)]" "[1, 2]" 2] tri
    by (simp add: example_batch_def)
  then show ?thesis
    unfolding batch_grids .
qed

theorem result_shape_dtype_device_witness:
  "trianglemeshes_to_voxelgrids_with unbatched_subdivide_vertices base_points_to_voxelgrids
     example_batch example_faces (PyInt 2) (Some [(0, 0, 0), (2, 2, 2)]) (Some [1, 2]) False =
     Inr \<lparr>dtype = Float64, device = CUDA 0,
       data = [[[[1, 1], [0, 0]], [[1, 1], [0, 0]]], [[[1, 1], [1, 1]], [[0, 0], [0, 0]]]]\<rparr>
   \<and> has_shape [[[[1, 1], [0, 0]], [[1, 1], [0, 0]]], [[[1, 1], [1, 1]], [[0, 0], [0, 0]]]] 2 2
   \<and> dtype example_batch = Float64 \<and> device example_batch = CUDA 0"
proof -
  have conv: "trianglemeshes_to_voxelgrids_with unbatched_subdivide_vertices base_points_to_voxelgrids
     example_batch example_faces (PyInt 2) (Some [(0, 0, 0), (2, 2, 2)]) (Some [1, 2]) False =
     Inr \<lparr>dtype = Float64, device = CUDA 0,
       data = [[[[1, 1], [0, 0]], [[1, 1], [0, 0]]], [[[1, 1], [1, 1]], [[0, 0], [0, 0]]]]\<rparr>"
    using batch_eval by (simp add: trianglemeshes_to_voxelgrids_def)
  from result_shape_dtype_device [OF conv] conv show ?thesis
    by (simp add: example_batch_def numeral_2_eq_2)
qed

theorem batch_independence_witness:
  "trianglemeshes_to_voxelgrids_with unbatched_subdivide_vertices base_points_to_voxelgrids
     example_batch example_faces (PyInt 2) (Some [(0, 0, 0), (2, 2, 2)]) (Some [1, 2]) False =
     Inr \<lparr>dtype = Float64, device = CUDA 0,
       data = [[[[1, 1], [0, 0]], [[1, 1], [0, 0]]], [[[1, 1], [1, 1]], [[0, 0], [0, 0]]]]\<rparr>
   \<and> length [(0, 0, 0), (2, 2, 2) :: point] = length (data example_batch)
   \<and> length [1, 2 :: rat] = length (data example_batch)
   \<and> 1 < length (data example_batch)
   \<and> trianglemeshes_to_voxelgrids_with unbatched_subdivide_vertices base_points_to_voxelgrids
     \<lparr>dtype = Float64, device = CUDA 0, data = [[(2, 2, 2), (2, 4, 2), (2, 2, 4)]]\<rparr>
     example_faces (PyInt 2) (Some [(2, 2, 2)]) (Some [2]) False =
     Inr \<lparr>dtype = Float64, device = CUDA 0, data = [[[[1, 1], [1, 1]], [[0, 0], [0, 0]]]]\<rparr>"
proof -
  have conv: "trianglemeshes_to_voxelgrids_with unbatched_subdivide_vertices base_points_to_voxelgrids
     example_batch example_faces (PyInt 2) (Some [(0, 0, 0), (2, 2, 2)]) (Some [1, 2]) False =
     Inr \<lparr>dtype = Float64, device = CUDA 0,
       data = [[[[1, 1], [0, 0]], [[1, 1], [0, 0]]], [[[1, 1], [1, 1]], [[0, 0], [0, 0]]]]\<rparr>"
    using batch_eval by (simp add: trianglemeshes_to_voxelgrids_def)
  have lo: "length [(0, 0, 0), (2, 2, 2) :: point] = length (data example_batch)"
    and ls: "length [1, 2 :: rat] = length (data example_batch)"
    and i: "1 < length (data example_batch)"
    by (simp_all add: example_batch_def)
  from batch_independence [OF conv lo ls i] conv lo ls i show ?thesis
    by (simp add: example_batch_def)
qed

section \<open>Normalization and its defaults\<close>

lemma pmin_proj:
  "pmin p q = (min (fst p) (fst q), min (fst (snd p)) (fst (snd q)), min (snd (snd p)) (snd (snd q)))"
  by (cases p; cases q) simp

lemma pmax_proj:
  "pmax p q = (max (fst p) (fst q), max (fst (snd p)) (fst (snd q)), max (snd (snd p)) (snd (snd q)))"
  by (cases p; cases q) simp

lemma foldl_pmin_axes:
  "foldl pmin p ps =
     (fold min (map fst ps) (fst p), fold min (map (\<lambda>v. fst (snd v)) ps) (fst (snd p)),
      fold min (map (\<lambda>v. snd (snd v)) ps) (snd (snd p)))"
  by (induction ps arbitrary: p) (simp_all add: pmin_proj min.commute)

lemma foldl_pmax_axes:
  "foldl pmax p ps =
     (fold max (map fst ps) (fst p), fold max (map (\<lambda>v. fst (snd v)) ps) (fst (snd p)),
      fold max (map (\<lambda>v. snd (snd v)) ps) (snd (snd p)))"
  by (induction ps arbitrary: p) (simp_all add: pmax_proj max.commute)

lemma reduce_min_item:
  assumes "vs \<noteq> []"
  shows "foldl pmin (hd vs) (tl vs) = spec_axis_min vs"
proof -
  from assms obtain p ps where vs: "vs = p # ps"
    by (cases vs) auto
  have "Min (f ` set (p # ps)) = fold min (map f ps) (f p)" for f :: "point \<Rightarrow> rat"
    using Min.set_eq_fold [of "f p" "map f ps"] by simp
  then show ?thesis
    unfolding spec_axis_min_def vs
    by (simp add: foldl_pmin_axes del: set_simps)
qed

lemma reduce_max_item:
  assumes "vs \<noteq> []"
  shows "foldl pmax (hd vs) (tl vs) = spec_axis_max vs"
proof -
  from assms obtain p ps where vs: "vs = p # ps"
    by (cases vs) auto
  have "Max (f ` set (p # ps)) = fold max (map f ps) (f p)" for f :: "point \<Rightarrow> rat"
    using Max.set_eq_fold [of "f p" "map f ps"] by simp
  then show ?thesis
    unfolding spec_axis_max_def vs
    by (simp add: foldl_pmax_axes del: set_simps)
qed

lemma torch_min_dim1_eq:
  "[] \<notin> set vs \<Longrightarrow> torch_min_dim1 vs = Inr (map spec_axis_min vs)"
  by (auto simp: torch_min_dim1_def reduce_dim1_def intro!: reduce_min_item)

lemma torch_max_dim1_eq:
  "[] \<notin> set vs \<Longrightarrow> torch_max_dim1 vs = Inr (map spec_axis_max vs)"
  by (auto simp: torch_max_dim1_def reduce_dim1_def intro!: reduce_max_item)

lemma max_axis_psub:
  "max_axis (psub (spec_axis_max vs) orig) = spec_default_scale vs orig"
  by (cases "spec_axis_max vs"; cases orig) (simp add: spec_default_scale_def)

lemma resolve_scale_default:
  assumes "[] \<notin> set vs" and "length orig = length vs"
  shows "resolve_scale vs orig None = Inr (map2 spec_default_scale vs orig)"
proof -
  have "map max_axis (map2 psub (map spec_axis_max vs) orig) = map2 spec_default_scale vs orig"
    using assms(2)
  proof (induction vs orig rule: list_induct2')
    case (4 v vs c orig)
    then show ?case by (simp add: max_axis_psub)
  qed simp_all
  with assms show ?thesis
    by (simp add: resolve_scale_def torch_max_dim1_eq broadcast2_same_length)
qed

lemma pdiv_psub: "pdiv (psub v orig) s = spec_normalized orig s v"
  by (cases v; cases orig) simp


lemma resolve_origin_Inr:
  assumes "resolve_origin vs origin = Inr os"
    and "\<forall>given. origin = Some given \<longrightarrow> length given = length vs"
    and "i < length vs"
  shows "length os = length vs"
    and "os ! i = (case origin of None \<Rightarrow> spec_axis_min (vs ! i) | Some given \<Rightarrow> given ! i)"
proof -
  show "length os = length vs"
    using assms(1,2)
    by (cases origin) (auto simp: resolve_origin_def torch_min_dim1_def reduce_dim1_def split: if_splits)
  show "os ! i = (case origin of None \<Rightarrow> spec_axis_min (vs ! i) | Some given \<Rightarrow> given ! i)"
  proof (cases origin)
    case None
    with assms(1) have "[] \<notin> set vs"
      by (auto simp: resolve_origin_def torch_min_dim1_def reduce_dim1_def split: if_splits)
    from torch_min_dim1_eq [OF this] assms(1) None have "os = map spec_axis_min vs"
      by (simp add: resolve_origin_def)
    with assms(3) None show ?thesis
      by simp
  next
    case (Some given)
    with assms(1) show ?thesis
      by (simp add: resolve_origin_def)
  qed
qed

lemma resolve_scale_Inr:
  assumes "resolve_scale vs os scale = Inr ss"
    and "length os = length vs"
    and "\<forall>given. scale = Some given \<longrightarrow> length given = length vs"
    and "i < length vs"
  shows "length ss = length vs"
    and "ss ! i = (case scale of None \<Rightarrow> spec_default_scale (vs ! i) (os ! i) | Some given \<Rightarrow> given ! i)"
proof -
  have *: "ss = map2 spec_default_scale vs os" if "scale = None"
  proof -
    from assms(1) that have "[] \<notin> set vs"
      by (auto simp: resolve_scale_def torch_max_dim1_def reduce_dim1_def split: if_splits)
    from resolve_scale_default [OF this assms(2)] assms(1) that show ?thesis
      by simp
  qed
  show "length ss = length vs"
  proof (cases scale)
    case None
    with * assms(2) show ?thesis by simp
  next
    case (Some given)
    with assms(1,3) show ?thesis by (simp add: resolve_scale_def)
  qed
  show "ss ! i = (case scale of None \<Rightarrow> spec_default_scale (vs ! i) (os ! i) | Some given \<Rightarrow> given ! i)"
  proof (cases scale)
    case None
    with * assms(2,4) show ?thesis by simp
  next
    case (Some given)
    with assms(1) show ?thesis by (simp add: resolve_scale_def)
  qed
qed

text \<open>
  Claim C4. For every batch item of a successful call, the points handed to the subdivider
  (whose result is handed to the rasterizer, which fills the item's grid) are exactly
  \<open>(v - origin) / scale\<close> for the item's vertices \<open>v\<close>, with the item's one scalar scale on
  all three axes; an omitted origin is the per-axis minimum of the item's vertices and an
  omitted scale the maximum over the axes of the per-axis maximum minus the origin. A
  supplied origin or scale has one entry per item. This holds whatever the two helpers
  compute.
\<close>

theorem normalized_points_fed:
  assumes conv: "trianglemeshes_to_voxelgrids_with sub rast vertices faces resolution origin scale sp = Inr out"
    and i: "i < length (data vertices)"
    and lo: "\<forall>given. origin = Some given \<longrightarrow> length given = length (data vertices)"
    and ls: "\<forall>given. scale = Some given \<longrightarrow> length given = length (data vertices)"
  shows "\<exists>r orig sc pts. resolution = PyInt r
      \<and> orig = (case origin of None \<Rightarrow> spec_axis_min (data vertices ! i) | Some given \<Rightarrow> given ! i)
      \<and> sc = (case scale of None \<Rightarrow> spec_default_scale (data vertices ! i) orig | Some given \<Rightarrow> given ! i)
      \<and> sub (map (spec_normalized orig sc) (data vertices ! i)) faces r = Inr pts
      \<and> rast [pts] r sp = Inr (Dense [data out ! i])"
proof -
  let ?vs = "data vertices"
  from conv obtain r os ss bp vgs where
    r: "resolution = PyInt r"
    and os: "resolve_origin ?vs origin = Inr os"
    and ss: "resolve_scale ?vs os scale = Inr ss"
    and bp: "normalize ?vs os ss = Inr bp"
    and loop: "for_range sub rast bp faces r sp [0..<length ?vs]
        (replicate (length ?vs) (zeros_grid (nat r))) = Inr vgs"
    and out: "out = \<lparr>dtype = dtype vertices, device = device vertices, data = vgs\<rparr>"
    unfolding convert_Inr_iff by blast
  let ?orig = "case origin of None \<Rightarrow> spec_axis_min (?vs ! i) | Some given \<Rightarrow> given ! i"
  let ?sc = "case scale of None \<Rightarrow> spec_default_scale (?vs ! i) ?orig | Some given \<Rightarrow> given ! i"
  note o = resolve_origin_Inr [OF os lo i]
  note s = resolve_scale_Inr [OF ss o(1) ls i]
  from normalize_nth [OF o(1) s(1) i bp]
  have len: "length bp = length ?vs"
    and item: "bp ! i = map (spec_normalized (os ! i) (ss ! i)) (?vs ! i)"
    by (simp_all add: pdiv_psub)
  from for_range_upt(2) [OF loop i] obtain pts where
    "sub (bp ! i) faces r = Inr pts" and "rast [pts] r sp = Inr (Dense [vgs ! i])"
    using i len by (auto simp: getitem_def)
  moreover have eo: "os ! i = ?orig"
    by (rule o(2))
  moreover have "ss ! i = ?sc"
    using s(2) by (cases scale) (simp_all add: eo)
  ultimately have "sub (map (spec_normalized ?orig ?sc) (?vs ! i)) faces r = Inr pts
      \<and> rast [pts] r sp = Inr (Dense [data out ! i])"
    using item by (simp add: out)
  with r show ?thesis
    by blast
qed

lemma batch_default_scale:
  "map2 spec_default_scale (data example_batch) [(0, 0, 0), (1, 1, 1)] = [1, 3]"
  "map2 spec_default_scale (data example_batch) (map spec_axis_min (data example_batch)) = [1, 2]"
  by (simp_all add: example_batch_def spec_default_scale_def spec_axis_max_def spec_axis_min_def)


lemma defaults_resolved:
  assumes "[] \<notin> set (data vertices)"
  shows "trianglemeshes_to_voxelgrids_with sub rast vertices faces resolution None None sp =
    trianglemeshes_to_voxelgrids_with sub rast vertices faces resolution
      (Some (map spec_axis_min (data vertices)))
      (Some (map2 spec_default_scale (data vertices) (map spec_axis_min (data vertices)))) sp"
  using assms
  by (cases resolution)
     (simp_all add: trianglemeshes_to_voxelgrids_with_def resolve_origin_def torch_min_dim1_eq
        resolve_scale_default resolve_scale_def [of _ _ "Some _"])

lemma batch_default_origin:
  "map spec_axis_min (data example_batch) = [(0, 0, 0), (2, 2, 2)]"
  by (simp add: example_batch_def spec_axis_min_def)

lemma batch_eval_defaults:
  "trianglemeshes_to_voxelgrids_with unbatched_subdivide_vertices base_points_to_voxelgrids
     example_batch example_faces (PyInt 2) None None False =
   Inr \<lparr>dtype = Float64, device = CUDA 0,
     data = [[[[1, 1], [0, 0]], [[1, 1], [0, 0]]], [[[1, 1], [1, 1]], [[0, 0], [0, 0]]]]\<rparr>"
proof -
  have "[] \<notin> set (data example_batch)"
    by (simp add: example_batch_def)
  from defaults_resolved [OF this] show ?thesis
    using batch_eval batch_default_scale(2)
    by (simp add: batch_default_origin trianglemeshes_to_voxelgrids_def)
qed

theorem normalized_points_fed_witness:
  "trianglemeshes_to_voxelgrids_with unbatched_subdivide_vertices base_points_to_voxelgrids
     example_batch example_faces (PyInt 2) None None False =
   Inr \<lparr>dtype = Float64, device = CUDA 0,
     data = [[[[1, 1], [0, 0]], [[1, 1], [0, 0]]], [[[1, 1], [1, 1]], [[0, 0], [0, 0]]]]\<rparr>
   \<and> 1 < length (data example_batch)
   \<and> spec_axis_min (data example_batch ! 1) = (2, 2, 2)
   \<and> spec_default_scale (data example_batch ! 1) (2, 2, 2) = 2
   \<and> (\<exists>pts. unbatched_subdivide_vertices
         (map (spec_normalized (2, 2, 2) 2) (data example_batch ! 1)) example_faces 2 = Inr pts
       \<and> base_points_to_voxelgrids [pts] 2 False = Inr (Dense [[[[1, 1], [1, 1]], [[0, 0], [0, 0]]]]))"
proof -
  have i: "1 < length (data example_batch)"
    by (simp add: example_batch_def)
  have orig: "spec_axis_min (data example_batch ! 1) = (2, 2, 2)"
    by (simp add: example_batch_def spec_axis_min_def)
  have sc: "spec_default_scale (data example_batch ! 1) (2, 2, 2) = 2"
    by (simp add: example_batch_def spec_default_scale_def spec_axis_max_def)
  from normalized_points_fed [OF batch_eval_defaults i] batch_eval_defaults i orig sc
  show ?thesis
    by simp
qed

section \<open>The default scale about a supplied origin\<close>

lemma call_feeds_normalized:
  assumes conv: "trianglemeshes_to_voxelgrids_with sub rast vertices faces resolution origin scale sp = Inr out"
    and i: "i < length (data vertices)"
    and lo: "\<forall>given. origin = Some given \<longrightarrow> length given = length (data vertices)"
    and ls: "\<forall>given. scale = Some given \<longrightarrow> length given = length (data vertices)"
  shows "\<exists>r pts. resolution = PyInt r
      \<and> sub (map (spec_normalized
            (case origin of None \<Rightarrow> spec_axis_min (data vertices ! i) | Some given \<Rightarrow> given ! i)
            (case scale of
               None \<Rightarrow> spec_default_scale (data vertices ! i)
                 (case origin of None \<Rightarrow> spec_axis_min (data vertices ! i) | Some given \<Rightarrow> given ! i)
             | Some given \<Rightarrow> given ! i))
          (data vertices ! i)) faces r = Inr pts
      \<and> rast [pts] r sp = Inr (Dense [data out ! i])"
proof -
  let ?vs = "data vertices"
  from conv obtain r os ss bp vgs where
    r: "resolution = PyInt r"
    and os: "resolve_origin ?vs origin = Inr os"
    and ss: "resolve_scale ?vs os scale = Inr ss"
    and bp: "normalize ?vs os ss = Inr bp"
    and loop: "for_range sub rast bp faces r sp [0..<length ?vs]
        (replicate (length ?vs) (zeros_grid (nat r))) = Inr vgs"
    and out: "out = \<lparr>dtype = dtype vertices, device = device vertices, data = vgs\<rparr>"
    unfolding convert_Inr_iff by blast
  let ?orig = "case origin of None \<Rightarrow> spec_axis_min (?vs ! i) | Some given \<Rightarrow> given ! i"
  let ?sc = "case scale of None \<Rightarrow> spec_default_scale (?vs ! i) ?orig | Some given \<Rightarrow> given ! i"
  note o = resolve_origin_Inr [OF os lo i]
  note s = resolve_scale_Inr [OF ss o(1) ls i]
  from normalize_nth [OF o(1) s(1) i bp]
  have len: "length bp = length ?vs"
    and item: "bp ! i = map (spec_normalized (os ! i) (ss ! i)) (?vs ! i)"
    by (simp_all add: pdiv_psub)
  from for_range_upt(2) [OF loop i] obtain pts where
    "sub (bp ! i) faces r = Inr pts" and "rast [pts] r sp = Inr (Dense [vgs ! i])"
    using i len by (auto simp: getitem_def)
  moreover have eo: "os ! i = ?orig"
    by (rule o(2))
  moreover have "ss ! i = ?sc"
    using s(2) by (cases scale) (simp_all add: eo)
  ultimately have "sub (map (spec_normalized ?orig ?sc) (?vs ! i)) faces r = Inr pts
      \<and> rast [pts] r sp = Inr (Dense [data out ! i])"
    using item by (simp add: out)
  with r show ?thesis
    by blast
qed

lemma spec_default_scale_explicit:
  "spec_default_scale vs orig =
     Max {Max (fst ` set vs) - fst orig,
          Max ((\<lambda>v. fst (snd v)) ` set vs) - fst (snd orig),
          Max ((\<lambda>v. snd (snd v)) ` set vs) - snd (snd orig)}"
  by (cases orig) (simp add: spec_default_scale_def spec_axis_max_def)

text \<open>
  Claim C10. With an origin supplied and the scale omitted, the scale that lines 76 to 78
  compute for every item is the maximum over the axes of the per-axis vertex maximum minus
  the supplied origin, not minus the minimum of the vertices. The call is the call with
  that scale supplied, and the points handed to the subdivider are the vertices minus the
  supplied origin, divided by that scale. This holds whatever the two helpers compute.
\<close>

theorem default_scale_about_supplied_origin:
  assumes ne: "[] \<notin> set (data vertices)" and lo: "length orig = length (data vertices)"
  shows "resolve_scale (data vertices) orig None = Inr (map2 spec_default_scale (data vertices) orig)
    \<and> (\<forall>i < length (data vertices). map2 spec_default_scale (data vertices) orig ! i =
          Max {Max (fst ` set (data vertices ! i)) - fst (orig ! i),
               Max ((\<lambda>v. fst (snd v)) ` set (data vertices ! i)) - fst (snd (orig ! i)),
               Max ((\<lambda>v. snd (snd v)) ` set (data vertices ! i)) - snd (snd (orig ! i))})
    \<and> trianglemeshes_to_voxelgrids_with sub rast vertices faces resolution (Some orig) None sp =
        trianglemeshes_to_voxelgrids_with sub rast vertices faces resolution (Some orig)
          (Some (map2 spec_default_scale (data vertices) orig)) sp
    \<and> (\<forall>out. \<forall>i < length (data vertices).
          trianglemeshes_to_voxelgrids_with sub rast vertices faces resolution (Some orig) None sp = Inr out
          \<longrightarrow> (\<exists>r pts. resolution = PyInt r
                \<and> sub (map (spec_normalized (orig ! i) (spec_default_scale (data vertices ! i) (orig ! i)))
                     (data vertices ! i)) faces r = Inr pts
                \<and> rast [pts] r sp = Inr (Dense [data out ! i])))"
proof (intro conjI allI impI)
  show rs: "resolve_scale (data vertices) orig None = Inr (map2 spec_default_scale (data vertices) orig)"
    by (rule resolve_scale_default [OF ne lo])
  show "trianglemeshes_to_voxelgrids_with sub rast vertices faces resolution (Some orig) None sp =
        trianglemeshes_to_voxelgrids_with sub rast vertices faces resolution (Some orig)
          (Some (map2 spec_default_scale (data vertices) orig)) sp"
    by (cases resolution)
       (simp_all add: trianglemeshes_to_voxelgrids_with_def resolve_origin_def rs
          resolve_scale_def [of _ _ "Some _"])
next
  fix i assume "i < length (data vertices)"
  with lo show "map2 spec_default_scale (data vertices) orig ! i =
          Max {Max (fst ` set (data vertices ! i)) - fst (orig ! i),
               Max ((\<lambda>v. fst (snd v)) ` set (data vertices ! i)) - fst (snd (orig ! i)),
               Max ((\<lambda>v. snd (snd v)) ` set (data vertices ! i)) - snd (snd (orig ! i))}"
    by (simp add: spec_default_scale_explicit)
next
  fix out i
  assume i: "i < length (data vertices)"
    and conv: "trianglemeshes_to_voxelgrids_with sub rast vertices faces resolution (Some orig) None sp = Inr out"
  from call_feeds_normalized [OF conv i] lo
  show "\<exists>r pts. resolution = PyInt r
        \<and> sub (map (spec_normalized (orig ! i) (spec_default_scale (data vertices ! i) (orig ! i)))
             (data vertices ! i)) faces r = Inr pts
        \<and> rast [pts] r sp = Inr (Dense [data out ! i])"
    by simp
qed


lemma shifted_depth:
  "subdivision_depth 2 ((1 / 3, 1 / 3, 1 / 3), (1 / 3, 1, 1 / 3), (1 / 3, 1 / 3, 1)) = 1"
  "subdivision_depth 2 ((1 / 2, 1 / 2, 1 / 2), (1 / 2, 3 / 2, 1 / 2), (1 / 2, 1 / 2, 3 / 2)) = 2"
  by (simp_all add: subdivision_depth_def rounds.simps power2_eq_square)

lemma shifted_cells:
  "set (occupied 2 ([(1 / 3, 1 / 3, 1 / 3), (1 / 3, 1, 1 / 3), (1 / 3, 1 / 3, 1)] @
      face_points 2 ((1 / 3, 1 / 3, 1 / 3), (1 / 3, 1, 1 / 3), (1 / 3, 1 / 3, 1)))) =
     {(0, 0, 0), (0, 0, 1), (0, 1, 0), (0, 1, 1)}"
  "set (occupied 2 ([(1 / 2, 1 / 2, 1 / 2), (1 / 2, 3 / 2, 1 / 2), (1 / 2, 1 / 2, 3 / 2)] @
      face_points 2 ((1 / 2, 1 / 2, 1 / 2), (1 / 2, 3 / 2, 1 / 2), (1 / 2, 1 / 2, 3 / 2)))) =
     {(1, 1, 1)}"
  unfolding occupied_def set_remdups face_points_def shifted_depth
  by (simp_all add: Let_def numeral_2_eq_2 voxel_index_def floor_rat_numeral_div insert_commute)

lemma shifted_grids:
  "dense_grid 2 (occupied 2 ([(1 / 3, 1 / 3, 1 / 3), (1 / 3, 1, 1 / 3), (1 / 3, 1 / 3, 1)] @
      face_points 2 ((1 / 3, 1 / 3, 1 / 3), (1 / 3, 1, 1 / 3), (1 / 3, 1 / 3, 1)))) =
     [[[1, 1], [1, 1]], [[0, 0], [0, 0]]]"
  "dense_grid 2 (occupied 2 ([(1 / 2, 1 / 2, 1 / 2), (1 / 2, 3 / 2, 1 / 2), (1 / 2, 1 / 2, 3 / 2)] @
      face_points 2 ((1 / 2, 1 / 2, 1 / 2), (1 / 2, 3 / 2, 1 / 2), (1 / 2, 1 / 2, 3 / 2)))) =
     [[[0, 0], [0, 0]], [[0, 0], [0, 1]]]"
  unfolding dense_grid_2 shifted_cells by simp_all

lemma shifted_eval:
  "trianglemeshes_to_voxelgrids example_batch example_faces (PyInt 2)
     (Some [(0, 0, 0), (1, 1, 1)]) (Some [1, 3]) False =
   Inr \<lparr>dtype = Float64, device = CUDA 0,
     data = [[[[1, 1], [0, 0]], [[1, 1], [0, 0]]], [[[1, 1], [1, 1]], [[0, 0], [0, 0]]]]\<rparr>"
  "trianglemeshes_to_voxelgrids example_batch example_faces (PyInt 2)
     (Some [(0, 0, 0), (1, 1, 1)]) (Some [1, 2]) False =
   Inr \<lparr>dtype = Float64, device = CUDA 0,
     data = [[[[1, 1], [0, 0]], [[1, 1], [0, 0]]], [[[0, 0], [0, 0]], [[0, 0], [0, 1]]]]\<rparr>"
proof -
  have valid: "\<forall>vs \<in> set (data example_batch). faces_valid (length vs) example_faces"
    by (simp add: example_batch_def example_faces_def faces_valid_def)
  have tri: "triangles_of [(0, 0, 0), (1, 0, 0), (0, 0, 1)] example_faces = [((0, 0, 0), (1, 0, 0), (0, 0, 1))]"
    "triangles_of [(1 / 3, 1 / 3, 1 / 3), (1 / 3, 1, 1 / 3), (1 / 3, 1 / 3, 1)] example_faces =
       [((1 / 3, 1 / 3, 1 / 3), (1 / 3, 1, 1 / 3), (1 / 3, 1 / 3, 1))]"
    "triangles_of [(1 / 2, 1 / 2, 1 / 2), (1 / 2, 3 / 2, 1 / 2), (1 / 2, 1 / 2, 3 / 2)] example_faces =
       [((1 / 2, 1 / 2, 1 / 2), (1 / 2, 3 / 2, 1 / 2), (1 / 2, 1 / 2, 3 / 2))]"
    by (simp_all add: triangles_of_def example_faces_def)
  have "trianglemeshes_to_voxelgrids example_batch example_faces (PyInt 2)
     (Some [(0, 0, 0), (1, 1, 1)]) (Some [1, 3]) False =
     Inr \<lparr>dtype = Float64, device = CUDA 0,
       data = [dense_grid 2 (occupied 2 ([(0, 0, 0), (1, 0, 0), (0, 0, 1)] @
                 face_points 2 ((0, 0, 0), (1, 0, 0), (0, 0, 1)))),
               dense_grid 2 (occupied 2 ([(1 / 3, 1 / 3, 1 / 3), (1 / 3, 1, 1 / 3), (1 / 3, 1 / 3, 1)] @
                 face_points 2 ((1 / 3, 1 / 3, 1 / 3), (1 / 3, 1, 1 / 3), (1 / 3, 1 / 3, 1))))]\<rparr>"
    using dense_closed_form [OF _ _ _ valid, of "[(0, 0, 0), (1, 1, 1)]" "[1, 3]" 2] tri
    by (simp add: example_batch_def)
  then show "trianglemeshes_to_voxelgrids example_batch example_faces (PyInt 2)
     (Some [(0, 0, 0), (1, 1, 1)]) (Some [1, 3]) False =
   Inr \<lparr>dtype = Float64, device = CUDA 0,
     data = [[[[1, 1], [0, 0]], [[1, 1], [0, 0]]], [[[1, 1], [1, 1]], [[0, 0], [0, 0]]]]\<rparr>"
    unfolding batch_grids shifted_grids .
  have "trianglemeshes_to_voxelgrids example_batch example_faces (PyInt 2)
     (Some [(0, 0, 0), (1, 1, 1)]) (Some [1, 2]) False =
     Inr \<lparr>dtype = Float64, device = CUDA 0,
       data = [dense_grid 2 (occupied 2 ([(0, 0, 0), (1, 0, 0), (0, 0, 1)] @
                 face_points 2 ((0, 0, 0), (1, 0, 0), (0, 0, 1)))),
               dense_grid 2 (occupied 2 ([(1 / 2, 1 / 2, 1 / 2), (1 / 2, 3 / 2, 1 / 2), (1 / 2, 1 / 2, 3 / 2)] @
                 face_points 2 ((1 / 2, 1 / 2, 1 / 2), (1 / 2, 3 / 2, 1 / 2), (1 / 2, 1 / 2, 3 / 2))))]\<rparr>"
    using dense_closed_form [OF _ _ _ valid, of "[(0, 0, 0), (1, 1, 1)]" "[1, 2]" 2] tri
    by (simp add: example_batch_def)
  then show "trianglemeshes_to_voxelgrids example_batch example_faces (PyInt 2)
     (Some [(0, 0, 0), (1, 1, 1)]) (Some [1, 2]) False =
   Inr \<lparr>dtype = Float64, device = CUDA 0,
     data = [[[[1, 1], [0, 0]], [[1, 1], [0, 0]]], [[[0, 0], [0, 0]], [[0, 0], [0, 1]]]]\<rparr>"
    unfolding batch_grids shifted_grids .
qed

theorem default_scale_about_supplied_origin_witness:
  "[] \<notin> set (data example_batch)
   \<and> length [(0, 0, 0), (1, 1, 1) :: point] = length (data example_batch)
   \<and> resolve_scale (data example_batch) [(0, 0, 0), (1, 1, 1)] None = Inr [1, 3]
   \<and> map2 spec_default_scale (data example_batch) (map spec_axis_min (data example_batch)) = [1, 2]
   \<and> trianglemeshes_to_voxelgrids_with unbatched_subdivide_vertices base_points_to_voxelgrids
        example_batch example_faces (PyInt 2) (Some [(0, 0, 0), (1, 1, 1)]) None False =
      Inr \<lparr>dtype = Float64, device = CUDA 0,
        data = [[[[1, 1], [0, 0]], [[1, 1], [0, 0]]], [[[1, 1], [1, 1]], [[0, 0], [0, 0]]]]\<rparr>
   \<and> trianglemeshes_to_voxelgrids_with unbatched_subdivide_vertices base_points_to_voxelgrids
        example_batch example_faces (PyInt 2) (Some [(0, 0, 0), (1, 1, 1)]) (Some [1, 2]) False =
      Inr \<lparr>dtype = Float64, device = CUDA 0,
        data = [[[[1, 1], [0, 0]], [[1, 1], [0, 0]]], [[[0, 0], [0, 0]], [[0, 0], [0, 1]]]]\<rparr>"
proof -
  have ne: "[] \<notin> set (data example_batch)"
    and len: "length [(0, 0, 0), (1, 1, 1) :: point] = length (data example_batch)"
    by (simp_all add: example_batch_def)
  note inst = default_scale_about_supplied_origin [OF ne len,
      of unbatched_subdivide_vertices base_points_to_voxelgrids example_faces "PyInt 2" False]
  from inst have "resolve_scale (data example_batch) [(0, 0, 0), (1, 1, 1)] None =
      Inr (map2 spec_default_scale (data example_batch) [(0, 0, 0), (1, 1, 1)])"
    by (rule conjunct1)
  then have sc: "resolve_scale (data example_batch) [(0, 0, 0), (1, 1, 1)] None = Inr [1, 3]"
    unfolding batch_default_scale(1) .
  from inst have "trianglemeshes_to_voxelgrids_with unbatched_subdivide_vertices base_points_to_voxelgrids
        example_batch example_faces (PyInt 2) (Some [(0, 0, 0), (1, 1, 1)]) None False =
      trianglemeshes_to_voxelgrids_with unbatched_subdivide_vertices base_points_to_voxelgrids
        example_batch example_faces (PyInt 2) (Some [(0, 0, 0), (1, 1, 1)])
        (Some (map2 spec_default_scale (data example_batch) [(0, 0, 0), (1, 1, 1)])) False"
    by (elim conjE)
  then have call: "trianglemeshes_to_voxelgrids_with unbatched_subdivide_vertices base_points_to_voxelgrids
        example_batch example_faces (PyInt 2) (Some [(0, 0, 0), (1, 1, 1)]) None False =
      Inr \<lparr>dtype = Float64, device = CUDA 0,
        data = [[[[1, 1], [0, 0]], [[1, 1], [0, 0]]], [[[1, 1], [1, 1]], [[0, 0], [0, 0]]]]\<rparr>"
    unfolding batch_default_scale(1) using shifted_eval(1)
    by (simp add: trianglemeshes_to_voxelgrids_def)
  have other: "trianglemeshes_to_voxelgrids_with unbatched_subdivide_vertices base_points_to_voxelgrids
        example_batch example_faces (PyInt 2) (Some [(0, 0, 0), (1, 1, 1)]) (Some [1, 2]) False =
      Inr \<lparr>dtype = Float64, device = CUDA 0,
        data = [[[[1, 1], [0, 0]], [[1, 1], [0, 0]]], [[[0, 0], [0, 0]], [[0, 0], [0, 1]]]]\<rparr>"
    using shifted_eval(2) by (simp add: trianglemeshes_to_voxelgrids_def)
  from ne len sc batch_default_scale(2) call other show ?thesis
    by (intro conjI)
qed

section \<open>Subdivision down to the voxel width\<close>

lemma sqdist_nonneg: "0 \<le> sqdist a b"
  by (cases a; cases b) simp

lemma sqdist_midpoints:
  "sqdist (midpoint a b) (midpoint a c) = sqdist b c / 4"
  "sqdist (midpoint b a) (midpoint c a) = sqdist b c / 4"
  "sqdist (midpoint a b) (midpoint c a) = sqdist b c / 4"
  "sqdist (midpoint b a) (midpoint a c) = sqdist b c / 4"
  "sqdist a (midpoint a b) = sqdist a b / 4"
  "sqdist (midpoint a b) b = sqdist a b / 4"
  "sqdist (midpoint a b) a = sqdist a b / 4"
  "sqdist b (midpoint a b) = sqdist a b / 4"
  by (cases a; cases b; cases c; simp add: power2_eq_square field_simps)+

lemma max_div4: "max (x / 4) (y / 4) = max x y / (4::rat)"
  by (simp add: max_def)

lemma sqdist_commute: "sqdist a b = sqdist b a"
  by (cases a; cases b) (simp add: power2_commute)

lemma split4_longest:
  assumes "t' \<in> set (split4 t)"
  shows "longest_edge_sq t' = longest_edge_sq t / 4"
proof -
  obtain a b c where t: "t = (a, b, c)"
    by (cases t)
  from assms show ?thesis
    unfolding t
    by (auto simp: Let_def sqdist_midpoints max_div4 sqdist_commute [of c a] sqdist_commute [of b a]
        sqdist_commute [of c b] max.commute max.left_commute)
qed


lemma refine_not_Nil: "refine k ts \<noteq> []"
  by (cases k) simp_all

lemma length_refine: "length (refine k ts) = Suc k"
  by (induction k arbitrary: ts) simp_all

lemma hd_refine: "hd (refine k ts) = ts"
  by (cases k) simp_all

lemma last_refine_longest:
  assumes "t' \<in> set (last (refine k ts))"
  shows "\<exists>t \<in> set ts. longest_edge_sq t' = longest_edge_sq t / 4 ^ k"
  using assms
proof (induction k arbitrary: ts)
  case 0
  then show ?case by auto
next
  case (Suc k)
  then have "t' \<in> set (last (refine k (concat (map split4 ts))))"
    by (simp add: refine_not_Nil)
  from Suc.IH [OF this] obtain t1 where
    t1: "t1 \<in> set (concat (map split4 ts))" and eq: "longest_edge_sq t' = longest_edge_sq t1 / 4 ^ k"
    by blast
  from t1 obtain t where t: "t \<in> set ts" and "t1 \<in> set (split4 t)"
    by auto
  from split4_longest [OF this(2)] eq have "longest_edge_sq t' = longest_edge_sq t / 4 / 4 ^ k"
    by (simp only:)
  then have "longest_edge_sq t' = longest_edge_sq t / 4 ^ Suc k"
    by simp
  with t show ?case
    by blast
qed

lemma length_last_refine: "length (last (refine k ts)) = 4 ^ k * length ts"
proof (induction k arbitrary: ts)
  case 0
  then show ?case by simp
next
  case (Suc k)
  have "length (concat (map split4 ts)) = 4 * length ts"
    by (induction ts) (auto simp: Let_def)
  with Suc show ?case
    by (simp add: refine_not_Nil)
qed

lemma rounds_upper: "q \<le> 4 ^ rounds q"
proof (induction q rule: rounds.induct)
  case (1 q)
  show ?case
  proof (cases "q \<le> 1")
    case True
    then show ?thesis by (simp add: rounds.simps)
  next
    case False
    with 1 have "q / 4 \<le> 4 ^ rounds (q / 4)"
      by simp
    with False show ?thesis
      by (simp add: rounds.simps [of q])
  qed
qed

lemma rounds_least: "q \<le> 4 ^ k \<Longrightarrow> rounds q \<le> k"
proof (induction q arbitrary: k rule: rounds.induct)
  case (1 q)
  show ?case
  proof (cases "q \<le> 1")
    case True
    then show ?thesis by (simp add: rounds.simps)
  next
    case False
    with "1.prems" obtain k' where k: "k = Suc k'"
      by (cases k) auto
    with "1.prems" have "q / 4 \<le> 4 ^ k'"
      by simp
    from "1.IH" [OF False this] False k show ?thesis
      by (simp add: rounds.simps [of q])
  qed
qed

lemma rounds_Least: "rounds q = (LEAST k. q \<le> 4 ^ k)"
  by (rule Least_equality [symmetric]) (auto intro: rounds_upper rounds_least)

lemma edge_le_longest:
  assumes "(a, b) \<in> set (tri_edges t)"
  shows "sqdist a b \<le> longest_edge_sq t"
proof -
  obtain x y z where "t = (x, y, z)"
    by (cases t)
  with assms show ?thesis
    by auto
qed

lemma longest_edge_sq_nonneg: "0 \<le> longest_edge_sq t"
proof -
  obtain x y z where "t = (x, y, z)"
    by (cases t)
  then show ?thesis
    by (simp add: sqdist_nonneg le_max_iff_disj)
qed

lemma halvings_iff:
  assumes "0 < r"
  shows "longest_edge t / 2 ^ k \<le> 1 / real_of_int r \<longleftrightarrow> longest_edge_sq t * (of_int r)\<^sup>2 \<le> 4 ^ k"
proof -
  let ?L = "real_of_rat (longest_edge_sq t)"
  have L: "0 \<le> ?L"
    by (simp add: longest_edge_sq_nonneg)
  have r: "0 < real_of_int r"
    using assms by simp
  have four: "(2 ^ k :: real)\<^sup>2 = 4 ^ k"
    by (induction k) simp_all
  have sq: "(sqrt ?L * real_of_int r)\<^sup>2 = ?L * (real_of_int r)\<^sup>2"
    using L by (simp add: power_mult_distrib)
  have "longest_edge t / 2 ^ k \<le> 1 / real_of_int r \<longleftrightarrow> sqrt ?L * real_of_int r \<le> 2 ^ k"
    using r by (simp add: longest_edge_def field_simps)
  also have "\<dots> \<longleftrightarrow> (sqrt ?L * real_of_int r)\<^sup>2 \<le> (2 ^ k)\<^sup>2"
  proof -
    have "0 \<le> sqrt ?L * real_of_int r"
      using L r by simp
    then have a1: "\<bar>sqrt ?L * real_of_int r\<bar> = sqrt ?L * real_of_int r"
      by (rule abs_of_nonneg)
    have a2: "\<bar>2 ^ k\<bar> = (2 ^ k :: real)"
      by simp
    show ?thesis
      using abs_le_square_iff [of "sqrt ?L * real_of_int r" "2 ^ k"] unfolding a1 a2 .
  qed
  also have "\<dots> \<longleftrightarrow> ?L * (real_of_int r)\<^sup>2 \<le> 4 ^ k"
    by (simp only: four sq)
  also have "\<dots> \<longleftrightarrow> real_of_rat (longest_edge_sq t * (of_int r)\<^sup>2) \<le> real_of_rat (4 ^ k)"
    by (simp add: of_rat_mult of_rat_power)
  also have "\<dots> \<longleftrightarrow> longest_edge_sq t * (of_int r)\<^sup>2 \<le> 4 ^ k"
    by (rule of_rat_less_eq)
  finally show ?thesis .
qed


lemma edge_length_bound:
  assumes r: "0 < r" and t': "t' \<in> set (last (refine (subdivision_depth r t) [t]))"
    and e: "(a, b) \<in> set (tri_edges t')"
  shows "edge_length a b \<le> 1 / real_of_int r"
proof -
  let ?k = "subdivision_depth r t"
  have rr: "(0::rat) < (of_int r)\<^sup>2"
    using r by simp
  from last_refine_longest [OF t'] have "longest_edge_sq t' = longest_edge_sq t / 4 ^ ?k"
    by simp
  with edge_le_longest [OF e] have "sqdist a b \<le> longest_edge_sq t / 4 ^ ?k"
    by simp
  also have "longest_edge_sq t * (of_int r)\<^sup>2 \<le> 4 ^ ?k"
    unfolding subdivision_depth_def by (rule rounds_upper)
  then have "longest_edge_sq t / 4 ^ ?k \<le> 1 / (of_int r)\<^sup>2"
    using rr by (simp add: field_simps)
  finally have "real_of_rat (sqdist a b) \<le> real_of_rat (1 / (of_int r)\<^sup>2)"
    by (simp only: of_rat_less_eq)
  also have "real_of_rat (1 / (of_int r)\<^sup>2) = (1 / real_of_int r)\<^sup>2"
    by (simp add: of_rat_divide of_rat_power power_divide)
  finally have "real_of_rat (sqdist a b) \<le> (1 / real_of_int r)\<^sup>2" .
  moreover have "0 \<le> 1 / real_of_int r"
    using r by simp
  ultimately show ?thesis
    unfolding edge_length_def by (intro real_le_lsqrt)
qed

lemma depth_Least:
  assumes "0 < r"
  shows "subdivision_depth r t = (LEAST k. longest_edge t / 2 ^ k \<le> 1 / real_of_int r)"
  unfolding subdivision_depth_def rounds_Least halvings_iff [OF assms] ..

lemma face_points_original: "set (tri_vertices t) \<subseteq> set (face_points r t)"
proof -
  have "[t] \<in> set (refine (subdivision_depth r t) [t])"
    by (cases "subdivision_depth r t") simp_all
  then have "t \<in> set (concat (refine (subdivision_depth r t) [t]))"
    by (auto intro!: bexI [of _ "[t]"])
  then show ?thesis
    unfolding face_points_def by auto
qed

lemma subdivide_keeps_vertices:
  assumes "faces_valid (length vs) faces"
  shows "\<exists>pts. unbatched_subdivide_vertices vs faces r = Inr pts \<and> set vs \<subseteq> set pts
      \<and> (\<forall>t \<in> set (triangles_of vs faces). set (tri_vertices t) \<subseteq> set pts)"
  unfolding subdivide_valid [OF assms] using face_points_original by fastforce

lemma refine_nth_0: "refine k ts ! 0 = ts"
  by (cases k) simp_all

lemma refine_nth_Suc:
  "n < k \<Longrightarrow> refine k ts ! Suc n = concat (map split4 (refine k ts ! n))"
proof (induction k arbitrary: ts n)
  case 0
  then show ?case by simp
next
  case (Suc k)
  show ?case
  proof (cases n)
    case 0
    then show ?thesis by (simp add: refine_nth_0)
  next
    case (Suc m)
    with Suc.prems have "m < k" by simp
    from Suc.IH [OF this] Suc show ?thesis by simp
  qed
qed

lemma last_refine_mem: "last (refine k ts) \<in> set (refine k ts)"
  by (rule last_in_set) (rule refine_not_Nil)

lemma set_face_points:
  "set (face_points r t) =
     (\<Union>level \<in> set (refine (subdivision_depth r t) [t]). \<Union>t' \<in> set level. set (tri_vertices t'))"
  by (auto simp: face_points_def)

lemma split4_midpoints:
  "split4 (a, b, c) =
     [(a, midpoint a b, midpoint c a), (midpoint a b, b, midpoint b c),
      (midpoint c a, midpoint b c, c), (midpoint a b, midpoint b c, midpoint c a)]"
  by (simp add: Let_def)

text \<open>
  Claim C8. On a mesh whose face indices are in range the subdivider returns, for
  degenerate triangles too. For every face the number of rounds is fixed in advance from
  its longest edge, as the least \<open>k\<close> whose \<open>k\<close> halvings bring that edge down to the voxel
  width \<open>1 / resolution\<close>; round 0 is the face itself and every further round replaces each
  triangle by the four sub-triangles through the midpoints of its edges; after the last
  round every edge of every sub-triangle has length at most \<open>1 / resolution\<close>. The points
  returned are exactly the original vertices and the vertices of the triangles of every
  round of every face: those of the face itself and of the last round are among them.
\<close>

theorem subdivision_terminates_within_voxel_width:
  assumes r: "0 < r" and valid: "faces_valid (length vs) faces"
  shows "\<exists>pts. unbatched_subdivide_vertices vs faces r = Inr pts
    \<and> set pts = set vs \<union>
        (\<Union>t \<in> set (triangles_of vs faces). \<Union>level \<in> set (refine (subdivision_depth r t) [t]).
           \<Union>t' \<in> set level. set (tri_vertices t'))
    \<and> (\<forall>t \<in> set (triangles_of vs faces).
          subdivision_depth r t = (LEAST k. longest_edge t / 2 ^ k \<le> 1 / real_of_int r)
        \<and> length (refine (subdivision_depth r t) [t]) = Suc (subdivision_depth r t)
        \<and> refine (subdivision_depth r t) [t] ! 0 = [t]
        \<and> (\<forall>n < subdivision_depth r t.
              refine (subdivision_depth r t) [t] ! Suc n =
                concat (map split4 (refine (subdivision_depth r t) [t] ! n)))
        \<and> set (tri_vertices t) \<subseteq> set pts
        \<and> (\<forall>t' \<in> set (last (refine (subdivision_depth r t) [t])).
              set (tri_vertices t') \<subseteq> set pts
            \<and> (\<forall>(a, b) \<in> set (tri_edges t'). edge_length a b \<le> 1 / real_of_int r)))
    \<and> (\<forall>a b c. split4 (a, b, c) =
          [(a, midpoint a b, midpoint c a), (midpoint a b, b, midpoint b c),
           (midpoint c a, midpoint b c, c), (midpoint a b, midpoint b c, midpoint c a)])
    \<and> (\<forall>x y z x' y' z'. midpoint (x, y, z) (x', y', z') = ((x + x') / 2, (y + y') / 2, (z + z') / 2))"
proof (intro exI conjI)
  let ?pts = "vs @ concat (map (face_points r) (triangles_of vs faces))"
  show "unbatched_subdivide_vertices vs faces r = Inr ?pts"
    by (rule subdivide_valid [OF valid])
  show eq: "set ?pts = set vs \<union>
        (\<Union>t \<in> set (triangles_of vs faces). \<Union>level \<in> set (refine (subdivision_depth r t) [t]).
           \<Union>t' \<in> set level. set (tri_vertices t'))"
    by (simp add: set_face_points)
  show "\<forall>t \<in> set (triangles_of vs faces).
          subdivision_depth r t = (LEAST k. longest_edge t / 2 ^ k \<le> 1 / real_of_int r)
        \<and> length (refine (subdivision_depth r t) [t]) = Suc (subdivision_depth r t)
        \<and> refine (subdivision_depth r t) [t] ! 0 = [t]
        \<and> (\<forall>n < subdivision_depth r t.
              refine (subdivision_depth r t) [t] ! Suc n =
                concat (map split4 (refine (subdivision_depth r t) [t] ! n)))
        \<and> set (tri_vertices t) \<subseteq> set ?pts
        \<and> (\<forall>t' \<in> set (last (refine (subdivision_depth r t) [t])).
              set (tri_vertices t') \<subseteq> set ?pts
            \<and> (\<forall>(a, b) \<in> set (tri_edges t'). edge_length a b \<le> 1 / real_of_int r))"
  proof (intro ballI conjI allI impI)
    fix t assume t: "t \<in> set (triangles_of vs faces)"
    let ?k = "subdivision_depth r t"
    show "?k = (LEAST k. longest_edge t / 2 ^ k \<le> 1 / real_of_int r)"
      by (rule depth_Least [OF r])
    show "length (refine ?k [t]) = Suc ?k"
      by (rule length_refine)
    show "refine ?k [t] ! 0 = [t]"
      by (rule refine_nth_0)
    have fp: "set (face_points r t) \<subseteq> set ?pts"
      using t by auto
    from face_points_original [of t r] fp show "set (tri_vertices t) \<subseteq> set ?pts"
      by (rule subset_trans)
    { fix n assume "n < ?k"
      then show "refine ?k [t] ! Suc n = concat (map split4 (refine ?k [t] ! n))"
        by (rule refine_nth_Suc) }
    { fix t' assume t': "t' \<in> set (last (refine ?k [t]))"
      have "set (tri_vertices t') \<subseteq> set (face_points r t)"
        unfolding set_face_points using t' last_refine_mem [of ?k "[t]"] by blast
      then show "set (tri_vertices t') \<subseteq> set ?pts"
        using fp by (rule subset_trans)
      fix e assume e: "e \<in> set (tri_edges t')"
      obtain a b where ab: "e = (a, b)"
        by (cases e)
      from edge_length_bound [OF r t'] e ab
      show "case e of (a, b) \<Rightarrow> edge_length a b \<le> 1 / real_of_int r"
        by simp }
  qed
  show "\<forall>a b c. split4 (a, b, c) =
          [(a, midpoint a b, midpoint c a), (midpoint a b, b, midpoint b c),
           (midpoint c a, midpoint b c, c), (midpoint a b, midpoint b c, midpoint c a)]"
    by (simp add: Let_def)
  show "\<forall>x y z x' y' z'. midpoint (x, y, z) (x', y', z') = ((x + x') / 2, (y + y') / 2, (z + z') / 2)"
    by simp
qed


theorem subdivision_terminates_within_voxel_width_witness:
  "(0::int) < 3
   \<and> faces_valid (length ([(0, 0, 0), (1, 0, 0), (0, 0, 1)] :: point list)) example_faces
   \<and> triangles_of [(0, 0, 0), (1, 0, 0), (0, 0, 1)] example_faces = [((0, 0, 0), (1, 0, 0), (0, 0, 1))]
   \<and> subdivision_depth 3 ((0, 0, 0), (1, 0, 0), (0, 0, 1)) = 3
   \<and> (LEAST k. longest_edge ((0, 0, 0), (1, 0, 0), (0, 0, 1)) / 2 ^ k \<le> 1 / real_of_int 3) = 3
   \<and> length (refine 3 [((0, 0, 0), (1, 0, 0), (0, 0, 1))]) = 4
   \<and> refine 3 [((0, 0, 0), (1, 0, 0), (0, 0, 1))] ! 1 =
       [((0, 0, 0), (1 / 2, 0, 0), (0, 0, 1 / 2)), ((1 / 2, 0, 0), (1, 0, 0), (1 / 2, 0, 1 / 2)),
        ((0, 0, 1 / 2), (1 / 2, 0, 1 / 2), (0, 0, 1)), ((1 / 2, 0, 0), (1 / 2, 0, 1 / 2), (0, 0, 1 / 2))]
   \<and> edge_length (1 / 8, 0, 0) (0, 0, 1 / 8) \<le> 1 / real_of_int 3
   \<and> (\<exists>pts. unbatched_subdivide_vertices [(0, 0, 0), (1, 0, 0), (0, 0, 1)] example_faces 3 = Inr pts
        \<and> (1, 0, 0) \<in> set pts \<and> (1 / 8, 0, 0) \<in> set pts)"
proof -
  let ?vs = "[(0, 0, 0), (1, 0, 0), (0, 0, 1)] :: point list"
  let ?t = "((0, 0, 0), (1, 0, 0), (0, 0, 1)) :: triangle"
  let ?t' = "((0, 0, 0), (1 / 8, 0, 0), (0, 0, 1 / 8)) :: triangle"
  have pos: "(0::int) < 3"
    by simp
  have valid: "faces_valid (length ?vs) example_faces"
    by (simp add: example_faces_def faces_valid_def)
  have tri: "triangles_of ?vs example_faces = [?t]"
    by (simp add: triangles_of_def example_faces_def)
  have mem: "?t' \<in> set (last (refine 3 [?t]))"
    by (simp add: numeral_3_eq_3 Let_def)
  have edge: "((1 / 8, 0, 0), (0, 0, 1 / 8)) \<in> set (tri_edges ?t')"
    by simp
  have "\<exists>pts. unbatched_subdivide_vertices ?vs example_faces 3 = Inr pts
    \<and> (\<forall>t \<in> set (triangles_of ?vs example_faces).
          subdivision_depth 3 t = (LEAST k. longest_edge t / 2 ^ k \<le> 1 / real_of_int 3)
        \<and> length (refine (subdivision_depth 3 t) [t]) = Suc (subdivision_depth 3 t)
        \<and> refine (subdivision_depth 3 t) [t] ! 0 = [t]
        \<and> (\<forall>n < subdivision_depth 3 t.
              refine (subdivision_depth 3 t) [t] ! Suc n =
                concat (map split4 (refine (subdivision_depth 3 t) [t] ! n)))
        \<and> set (tri_vertices t) \<subseteq> set pts
        \<and> (\<forall>t' \<in> set (last (refine (subdivision_depth 3 t) [t])).
              set (tri_vertices t') \<subseteq> set pts
            \<and> (\<forall>(a, b) \<in> set (tri_edges t'). edge_length a b \<le> 1 / real_of_int 3)))"
    using subdivision_terminates_within_voxel_width [OF pos valid]
    by (elim exE conjE) (intro exI conjI; assumption)
  then obtain pts where
    pts: "unbatched_subdivide_vertices ?vs example_faces 3 = Inr pts"
    and faces: "\<forall>t \<in> set (triangles_of ?vs example_faces).
          subdivision_depth 3 t = (LEAST k. longest_edge t / 2 ^ k \<le> 1 / real_of_int 3)
        \<and> length (refine (subdivision_depth 3 t) [t]) = Suc (subdivision_depth 3 t)
        \<and> refine (subdivision_depth 3 t) [t] ! 0 = [t]
        \<and> (\<forall>n < subdivision_depth 3 t.
              refine (subdivision_depth 3 t) [t] ! Suc n =
                concat (map split4 (refine (subdivision_depth 3 t) [t] ! n)))
        \<and> set (tri_vertices t) \<subseteq> set pts
        \<and> (\<forall>t' \<in> set (last (refine (subdivision_depth 3 t) [t])).
              set (tri_vertices t') \<subseteq> set pts
            \<and> (\<forall>(a, b) \<in> set (tri_edges t'). edge_length a b \<le> 1 / real_of_int 3))"
    by (elim exE conjE)
  have "?t \<in> set (triangles_of ?vs example_faces)"
    by (simp add: tri)
  note f1 = bspec [OF faces this, unfolded example_depth]
  note f2 = f1 [THEN conjunct2]
  note f3 = f2 [THEN conjunct2]
  note f4 = f3 [THEN conjunct2]
  note f5 = f4 [THEN conjunct2]
  note least = f1 [THEN conjunct1]
  note len = f2 [THEN conjunct1]
  note zero = f3 [THEN conjunct1]
  note step = f4 [THEN conjunct1]
  note orig = f5 [THEN conjunct1]
  note final = f5 [THEN conjunct2]
  have "(0::nat) < 3"
    by simp
  with step [THEN spec, of 0] have "refine 3 [?t] ! Suc 0 = concat (map split4 (refine 3 [?t] ! 0))"
    by (rule mp)
  then have level1: "refine 3 [?t] ! 1 =
       [((0, 0, 0), (1 / 2, 0, 0), (0, 0, 1 / 2)), ((1 / 2, 0, 0), (1, 0, 0), (1 / 2, 0, 1 / 2)),
        ((0, 0, 1 / 2), (1 / 2, 0, 1 / 2), (0, 0, 1)), ((1 / 2, 0, 0), (1 / 2, 0, 1 / 2), (0, 0, 1 / 2))]"
    unfolding zero by (simp add: Let_def)
  note sub = bspec [OF final mem, THEN conjunct1]
  note edges = bspec [OF final mem, THEN conjunct2]
  from bspec [OF edges edge] have bound: "edge_length (1 / 8, 0, 0) (0, 0, 1 / 8) \<le> 1 / real_of_int 3"
    by simp
  from sub have p1: "(1 / 8, 0, 0) \<in> set pts"
    by simp
  from orig have p2: "(1, 0, 0) \<in> set pts"
    by simp
  from pts p1 p2 have ex: "\<exists>pts. unbatched_subdivide_vertices ?vs example_faces 3 = Inr pts
        \<and> (1, 0, 0) \<in> set pts \<and> (1 / 8, 0, 0) \<in> set pts"
    by blast
  from len have len4: "length (refine 3 [?t]) = 4"
    by simp
  show ?thesis
    by (intro conjI pos valid tri example_depth least [symmetric] len4 level1 bound ex)
qed

section \<open>Rasterization at the boundary\<close>

lemma voxel_index_one: "0 < r \<Longrightarrow> voxel_index r 1 = nat (r - 1)"
  by (simp add: voxel_index_def)

lemma voxel_index_less: "0 < r \<Longrightarrow> voxel_index r p < nat r"
  by (simp add: voxel_index_def)

lemma point_voxel_less:
  assumes "0 < r" and "point_voxel r p = (i, j, k)"
  shows "i < nat r \<and> j < nat r \<and> k < nat r"
proof -
  obtain x y z where "p = (x, y, z)"
    by (cases p)
  with assms show ?thesis
    by (auto simp: voxel_index_less)
qed

lemma occupied_in_range:
  assumes "0 < r" and "(i, j, k) \<in> set (occupied r pts)"
  shows "i < nat r \<and> j < nat r \<and> k < nat r"
proof -
  from assms(2) obtain p where "point_voxel r p = (i, j, k)"
    by (auto simp: occupied_def)
  from point_voxel_less [OF assms(1) this] show ?thesis .
qed

lemma dense_grid_nth:
  "i < R \<Longrightarrow> j < R \<Longrightarrow> k < R \<Longrightarrow>
     dense_grid R cells ! i ! j ! k = (if (i, j, k) \<in> set cells then 1 else 0)"
  by (simp add: dense_grid_def)

lemma point_marked:
  assumes "0 < r" and "p \<in> set pts" and "point_voxel r p = (i, j, k)"
  shows "dense_grid (nat r) (occupied r pts) ! i ! j ! k = 1"
proof -
  from assms(2,3) have "(i, j, k) \<in> set (occupied r pts)"
    by (force simp: occupied_def)
  with point_voxel_less [OF assms(1,3)] show ?thesis
    by (simp add: dense_grid_nth)
qed

lemma in_cell_voxel_index:
  assumes "0 < r"
  shows "in_cell r p (voxel_index r p)"
proof -
  have "\<lfloor>p * of_int r\<rfloor> \<le> r - 1" and "0 \<le> \<lfloor>p * of_int r\<rfloor>" if "0 \<le> p" "p < 1"
  proof -
    from that assms have "p * of_int r < of_int r"
      by simp
    then have "\<lfloor>p * of_int r\<rfloor> < r"
      by (simp add: floor_less_iff)
    then show "\<lfloor>p * of_int r\<rfloor> \<le> r - 1"
      by simp
    from that assms show "0 \<le> \<lfloor>p * of_int r\<rfloor>"
      by simp
  qed
  then show ?thesis
    using assms voxel_index_less [OF assms, of p]
    by (auto simp: in_cell_def voxel_index_def)
qed

lemma set_occupied: "set (occupied r pts) = point_voxel r ` set pts"
  by (simp add: occupied_def)

lemma distinct_occupied: "distinct (occupied r pts)"
  by (simp add: occupied_def)

text \<open>
  Claim C7. For a positive resolution the rasterizer returns on every point cloud, in dense
  and in sparse mode. Every occupied index it produces lies in \<open>[0, resolution)\<close> on every
  axis; the sparse result lists the distinct occupied cells and the dense grid is 1 on
  exactly these; every point of the unit cube has its cell among them, the one with index
  \<open>floor (p * resolution)\<close> on an axis where \<open>0 \<le> p < 1\<close> and with the clamped index
  \<open>resolution - 1\<close>, not the out-of-range \<open>resolution\<close>, on an axis where the coordinate is
  exactly 1; and every occupied cell is the cell of a point.
\<close>

theorem boundary_coordinate_clamped:
  assumes "0 < r"
  shows "\<exists>g cells.
      base_points_to_voxelgrids [pts] r False = Inr (Dense [g])
    \<and> base_points_to_voxelgrids [pts] r True = Inr (Sparse [cells])
    \<and> cube (nat r) g
    \<and> distinct cells
    \<and> (\<forall>(i, j, k) \<in> set cells. i < nat r \<and> j < nat r \<and> k < nat r)
    \<and> (\<forall>i < nat r. \<forall>j < nat r. \<forall>k < nat r.
          g ! i ! j ! k = (if (i, j, k) \<in> set cells then 1 else 0))
    \<and> (\<forall>(x, y, z) \<in> set pts. 0 \<le> x \<and> x \<le> 1 \<and> 0 \<le> y \<and> y \<le> 1 \<and> 0 \<le> z \<and> z \<le> 1 \<longrightarrow>
          (\<exists>(i, j, k) \<in> set cells. in_cell r x i \<and> in_cell r y j \<and> in_cell r z k))
    \<and> (\<forall>(i, j, k) \<in> set cells. \<exists>(x, y, z) \<in> set pts.
          in_cell r x i \<and> in_cell r y j \<and> in_cell r z k)
    \<and> (\<forall>(x, y, z) \<in> set pts. 0 \<le> y \<and> y \<le> 1 \<and> 0 \<le> z \<and> z \<le> 1 \<and> x = 1 \<longrightarrow>
          (\<exists>j < nat r. \<exists>k < nat r. g ! nat (r - 1) ! j ! k = 1))
    \<and> (\<forall>(x, y, z) \<in> set pts. 0 \<le> x \<and> x \<le> 1 \<and> 0 \<le> z \<and> z \<le> 1 \<and> y = 1 \<longrightarrow>
          (\<exists>i < nat r. \<exists>k < nat r. g ! i ! nat (r - 1) ! k = 1))
    \<and> (\<forall>(x, y, z) \<in> set pts. 0 \<le> x \<and> x \<le> 1 \<and> 0 \<le> y \<and> y \<le> 1 \<and> z = 1 \<longrightarrow>
          (\<exists>i < nat r. \<exists>j < nat r. g ! i ! j ! nat (r - 1) = 1))"
proof (intro exI conjI)
  let ?cells = "occupied r pts"
  let ?g = "dense_grid (nat r) ?cells"
  show "base_points_to_voxelgrids [pts] r False = Inr (Dense [?g])"
    and "base_points_to_voxelgrids [pts] r True = Inr (Sparse [?cells])"
    by (simp_all add: base_points_to_voxelgrids_def)
  show "cube (nat r) ?g"
    by (rule cube_dense_grid)
  show "distinct ?cells"
    by (rule distinct_occupied)
  show "\<forall>(i, j, k) \<in> set ?cells. i < nat r \<and> j < nat r \<and> k < nat r"
    using occupied_in_range [OF assms] by blast
  show "\<forall>i < nat r. \<forall>j < nat r. \<forall>k < nat r.
          ?g ! i ! j ! k = (if (i, j, k) \<in> set ?cells then 1 else 0)"
    by (simp add: dense_grid_nth)
  show "\<forall>(x, y, z) \<in> set pts. 0 \<le> x \<and> x \<le> 1 \<and> 0 \<le> y \<and> y \<le> 1 \<and> 0 \<le> z \<and> z \<le> 1 \<longrightarrow>
          (\<exists>(i, j, k) \<in> set ?cells. in_cell r x i \<and> in_cell r y j \<and> in_cell r z k)"
  proof (intro ballI, clarify)
    fix x y z assume "(x, y, z) \<in> set pts"
    then have "point_voxel r (x, y, z) \<in> set ?cells"
      unfolding set_occupied by (rule imageI)
    then show "\<exists>(i, j, k) \<in> set ?cells. in_cell r x i \<and> in_cell r y j \<and> in_cell r z k"
      using in_cell_voxel_index [OF assms] by (auto intro!: bexI [of _ "point_voxel r (x, y, z)"])
  qed
  show "\<forall>(i, j, k) \<in> set ?cells. \<exists>(x, y, z) \<in> set pts.
          in_cell r x i \<and> in_cell r y j \<and> in_cell r z k"
  proof (intro ballI, clarify)
    fix i j k assume "(i, j, k) \<in> set ?cells"
    then obtain p where p: "p \<in> set pts" and pv: "point_voxel r p = (i, j, k)"
      by (auto simp: set_occupied)
    obtain x y z where xyz: "p = (x, y, z)"
      by (cases p)
    with pv have "i = voxel_index r x" "j = voxel_index r y" "k = voxel_index r z"
      by simp_all
    with p xyz show "\<exists>(x, y, z) \<in> set pts. in_cell r x i \<and> in_cell r y j \<and> in_cell r z k"
      using in_cell_voxel_index [OF assms] by (auto intro!: bexI [of _ "(x, y, z)"])
  qed
  have marked: "?g ! voxel_index r x ! voxel_index r y ! voxel_index r z = 1"
    if "(x, y, z) \<in> set pts" for x y z
    using point_marked [OF assms that] by simp
  have one: "voxel_index r 1 = nat (r - 1)"
    by (rule voxel_index_one [OF assms])
  note less = voxel_index_less [OF assms]
  show "\<forall>(x, y, z) \<in> set pts. 0 \<le> y \<and> y \<le> 1 \<and> 0 \<le> z \<and> z \<le> 1 \<and> x = 1 \<longrightarrow>
          (\<exists>j < nat r. \<exists>k < nat r. ?g ! nat (r - 1) ! j ! k = 1)"
  proof (rule ballI)
    fix p assume p: "p \<in> set pts"
    obtain x y z where xyz: "p = (x, y, z)"
      by (cases p)
    have "(\<exists>j < nat r. \<exists>k < nat r. ?g ! nat (r - 1) ! j ! k = 1)" if "x = 1"
    proof -
      from marked [of x y z] p xyz that one
      have "?g ! nat (r - 1) ! voxel_index r y ! voxel_index r z = 1"
        by simp
      with less show ?thesis
        by blast
    qed
    then show "case p of (x, y, z) \<Rightarrow> 0 \<le> y \<and> y \<le> 1 \<and> 0 \<le> z \<and> z \<le> 1 \<and> x = 1 \<longrightarrow>
          (\<exists>j < nat r. \<exists>k < nat r. ?g ! nat (r - 1) ! j ! k = 1)"
      unfolding xyz by simp
  qed
  show "\<forall>(x, y, z) \<in> set pts. 0 \<le> x \<and> x \<le> 1 \<and> 0 \<le> z \<and> z \<le> 1 \<and> y = 1 \<longrightarrow>
          (\<exists>i < nat r. \<exists>k < nat r. ?g ! i ! nat (r - 1) ! k = 1)"
  proof (rule ballI)
    fix p assume p: "p \<in> set pts"
    obtain x y z where xyz: "p = (x, y, z)"
      by (cases p)
    have "(\<exists>i < nat r. \<exists>k < nat r. ?g ! i ! nat (r - 1) ! k = 1)" if "y = 1"
    proof -
      from marked [of x y z] p xyz that one
      have "?g ! voxel_index r x ! nat (r - 1) ! voxel_index r z = 1"
        by simp
      with less show ?thesis
        by blast
    qed
    then show "case p of (x, y, z) \<Rightarrow> 0 \<le> x \<and> x \<le> 1 \<and> 0 \<le> z \<and> z \<le> 1 \<and> y = 1 \<longrightarrow>
          (\<exists>i < nat r. \<exists>k < nat r. ?g ! i ! nat (r - 1) ! k = 1)"
      unfolding xyz by simp
  qed
  show "\<forall>(x, y, z) \<in> set pts. 0 \<le> x \<and> x \<le> 1 \<and> 0 \<le> y \<and> y \<le> 1 \<and> z = 1 \<longrightarrow>
          (\<exists>i < nat r. \<exists>j < nat r. ?g ! i ! j ! nat (r - 1) = 1)"
  proof (rule ballI)
    fix p assume p: "p \<in> set pts"
    obtain x y z where xyz: "p = (x, y, z)"
      by (cases p)
    have "(\<exists>i < nat r. \<exists>j < nat r. ?g ! i ! j ! nat (r - 1) = 1)" if "z = 1"
    proof -
      from marked [of x y z] p xyz that one
      have "?g ! voxel_index r x ! voxel_index r y ! nat (r - 1) = 1"
        by simp
      with less show ?thesis
        by blast
    qed
    then show "case p of (x, y, z) \<Rightarrow> 0 \<le> x \<and> x \<le> 1 \<and> 0 \<le> y \<and> y \<le> 1 \<and> z = 1 \<longrightarrow>
          (\<exists>i < nat r. \<exists>j < nat r. ?g ! i ! j ! nat (r - 1) = 1)"
      unfolding xyz by simp
  qed
qed



theorem boundary_coordinate_clamped_witness:
  "(0::int) < 3
   \<and> base_points_to_voxelgrids [[(0, 0, 0), (1, 0, 0), (0, 0, 1)]] 3 False =
       Inr (Dense [[[[1, 0, 1], [0, 0, 0], [0, 0, 0]],
                    [[0, 0, 0], [0, 0, 0], [0, 0, 0]],
                    [[1, 0, 0], [0, 0, 0], [0, 0, 0]]]])
   \<and> base_points_to_voxelgrids [[(0, 0, 0), (1, 0, 0), (0, 0, 1)]] 3 True =
       Inr (Sparse [[(0, 0, 0), (2, 0, 0), (0, 0, 2)]])
   \<and> (\<exists>j < 3. \<exists>k < 3. [[[1, 0, 1], [0, 0, 0], [0, 0, 0]],
                          [[0, 0, 0], [0, 0, 0], [0, 0, 0]],
                          [[1, 0, 0], [0, 0, 0], [0, 0, 0 :: rat]]] ! 2 ! j ! k = 1)"
proof -
  let ?pts = "[(0, 0, 0), (1, 0, 0), (0, 0, 1)] :: point list"
  let ?G = "[[[1, 0, 1], [0, 0, 0], [0, 0, 0]], [[0, 0, 0], [0, 0, 0], [0, 0, 0]],
             [[1, 0, 0], [0, 0, 0], [0, 0, 0 :: rat]]]"
  have pos: "(0::int) < 3"
    by simp
  have cells: "occupied 3 ?pts = [(0, 0, 0), (2, 0, 0), (0, 0, 2)]"
    by (simp add: occupied_def voxel_index_def)
  have dense: "base_points_to_voxelgrids [?pts] 3 False = Inr (Dense [?G])"
    by (simp add: base_points_to_voxelgrids_def cells dense_grid_3)
  have sparse: "base_points_to_voxelgrids [?pts] 3 True = Inr (Sparse [[(0, 0, 0), (2, 0, 0), (0, 0, 2)]])"
    by (simp add: base_points_to_voxelgrids_def cells)
  have "\<exists>g. base_points_to_voxelgrids [?pts] 3 False = Inr (Dense [g])
      \<and> (\<forall>(x, y, z) \<in> set ?pts. 0 \<le> y \<and> y \<le> 1 \<and> 0 \<le> z \<and> z \<le> 1 \<and> x = 1 \<longrightarrow>
          (\<exists>j < nat 3. \<exists>k < nat 3. g ! nat (3 - 1) ! j ! k = 1))"
    using boundary_coordinate_clamped [OF pos, of ?pts]
    by (elim exE conjE) (intro exI conjI; assumption)
  then obtain g where
    g: "base_points_to_voxelgrids [?pts] 3 False = Inr (Dense [g])"
    and x1: "\<forall>(x, y, z) \<in> set ?pts. 0 \<le> y \<and> y \<le> 1 \<and> 0 \<le> z \<and> z \<le> 1 \<and> x = 1 \<longrightarrow>
          (\<exists>j < nat 3. \<exists>k < nat 3. g ! nat (3 - 1) ! j ! k = 1)"
    by (elim exE conjE)
  from g dense have gG: "g = ?G"
    by simp
  have mem: "(1, 0, 0) \<in> set ?pts"
    by simp
  from bspec [OF x1 mem] have "\<exists>j < nat 3. \<exists>k < nat 3. g ! nat (3 - 1) ! j ! k = 1"
    by simp
  then have "\<exists>j < 3. \<exists>k < 3. ?G ! 2 ! j ! k = 1"
    unfolding gG by simp
  with pos dense sparse show ?thesis
    by (intro conjI)
qed

section \<open>The scale is not validated\<close>








section \<open>The check of the resolution\<close>

lemma ebind_Inl_iff:
  "ebind m f = Inl e \<longleftrightarrow> m = Inl e \<or> (\<exists>x. m = Inr x \<and> f x = Inl e)"
  by (cases m) (simp_all add: ebind_def)

lemma emap_Inl: "emap f xs = Inl e \<Longrightarrow> \<exists>x \<in> set xs. f x = Inl e"
  by (induction xs) (auto split: sum.splits)

lemma face_triangle_Inl: "face_triangle vs f = Inl e \<Longrightarrow> e = InvalidArgument"
  by (cases f) (auto simp: ebind_Inl_iff vertex_at_def split: if_splits)

lemma subdivide_Inl: "unbatched_subdivide_vertices vs faces r = Inl e \<Longrightarrow> e = InvalidArgument"
  by (auto simp: unbatched_subdivide_vertices_def ebind_Inl_iff dest!: emap_Inl face_triangle_Inl)

lemma setitem_Inl: "setitem vgs i v = Inl e \<Longrightarrow> e \<noteq> TypeError"
  by (auto simp: setitem_def split: if_splits voxelgrid.splits list.splits)

lemma for_range_no_TypeError:
  "for_range unbatched_subdivide_vertices base_points_to_voxelgrids bp faces r sp is vgs \<noteq> Inl TypeError"
proof (induction "is" arbitrary: vgs)
  case Nil
  show ?case by simp
next
  case (Cons i rest)
  show ?case
    using Cons.IH
    by (auto simp: ebind_Inl_iff getitem_def base_points_to_voxelgrids_def
        dest: subdivide_Inl setitem_Inl split: if_splits)
qed

lemma broadcast2_Inl: "broadcast2 f xs ys = Inl e \<Longrightarrow> e = RuntimeError"
  by (auto simp: broadcast2_def split: if_splits)

lemma reduce_dim1_Inl: "reduce_dim1 f vs = Inl e \<Longrightarrow> e = IndexError"
  by (auto simp: reduce_dim1_def split: if_splits)

lemma resolve_origin_Inl: "resolve_origin vs origin = Inl e \<Longrightarrow> e = IndexError"
  by (cases origin) (auto simp: resolve_origin_def torch_min_dim1_def dest: reduce_dim1_Inl)

lemma resolve_scale_Inl: "resolve_scale vs os scale = Inl e \<Longrightarrow> e = IndexError \<or> e = RuntimeError"
  by (cases scale)
     (auto simp: resolve_scale_def torch_max_dim1_def ebind_Inl_iff dest: reduce_dim1_Inl broadcast2_Inl)

lemma normalize_Inl: "normalize vs os ss = Inl e \<Longrightarrow> e = RuntimeError"
  by (auto simp: normalize_def ebind_Inl_iff dest: broadcast2_Inl)

lemma TypeError_iff:
  "trianglemeshes_to_voxelgrids vertices faces resolution origin scale sp = Inl TypeError
     \<longleftrightarrow> resolution = PyOther"
proof (cases resolution)
  case PyOther
  then show ?thesis
    by (simp add: trianglemeshes_to_voxelgrids_def trianglemeshes_to_voxelgrids_with_def)
next
  case (PyInt r)
  have "trianglemeshes_to_voxelgrids vertices faces (PyInt r) origin scale sp \<noteq> Inl TypeError"
    using for_range_no_TypeError
    by (auto simp: trianglemeshes_to_voxelgrids_def trianglemeshes_to_voxelgrids_with_def
        ebind_Inl_iff torch_zeros_def Let_def
        dest: resolve_origin_Inl resolve_scale_Inl normalize_Inl split: if_splits)
  with PyInt show ?thesis
    by simp
qed

lemma negative_resolution_fails:
  assumes "r < 0"
  shows "\<exists>e. trianglemeshes_to_voxelgrids_with sub rast vertices faces (PyInt r) origin scale sp = Inl e"
  using assms
  by (simp add: trianglemeshes_to_voxelgrids_with_def ebind_def torch_zeros_def split: sum.splits)

text \<open>
  Claim C3, amended. The check of lines 68 to 70 is a check of the type only: the call
  raises that \<open>TypeError\<close> if and only if the resolution is not an int. A negative int fails
  in every call, at the allocation of line 81 at the latest. Zero is not rejected, and a
  call with a positive resolution can fail for other reasons (see the counterexample
  below).
\<close>

theorem resolution_type_check:
  "(trianglemeshes_to_voxelgrids vertices faces resolution origin scale sp = Inl TypeError
      \<longleftrightarrow> resolution = PyOther)
   \<and> (\<forall>r. r < 0 \<and> resolution = PyInt r \<longrightarrow>
         (\<exists>e. trianglemeshes_to_voxelgrids vertices faces resolution origin scale sp = Inl e))"
  using TypeError_iff negative_resolution_fails
  by (auto simp: trianglemeshes_to_voxelgrids_def)

text \<open>
  The claim that the call fails if and only if the resolution is not a positive integer
  does not hold in either direction: with resolution 0 the call on an empty batch returns
  the empty batch of grids, and with resolution 2 the call on a batch of two meshes with an
  origin of three entries fails (the subtraction of line 83 cannot broadcast).
\<close>

theorem resolution_zero_counterexample:
  "\<not> (0::int) > 0
   \<and> trianglemeshes_to_voxelgrids \<lparr>dtype = Float32, device = CPU, data = []\<rparr> [(0, 1, 2)]
       (PyInt 0) (Some []) (Some []) False =
     Inr \<lparr>dtype = Float32, device = CPU, data = []\<rparr>
   \<and> (0::int) < 2
   \<and> trianglemeshes_to_voxelgrids example_batch example_faces (PyInt 2)
       (Some [(0, 0, 0), (2, 2, 2), (0, 0, 0)]) (Some [1, 2]) False = Inl RuntimeError"
  by (simp add: trianglemeshes_to_voxelgrids_def trianglemeshes_to_voxelgrids_with_def
      resolve_origin_def resolve_scale_def torch_zeros_def normalize_def broadcast2_def
      example_batch_def)

theorem resolution_type_check_witness:
  "trianglemeshes_to_voxelgrids example_vertices example_faces PyOther None None False = Inl TypeError
   \<and> (- 1 :: int) < 0
   \<and> (\<exists>e. trianglemeshes_to_voxelgrids example_vertices example_faces (PyInt (- 1)) None None False
         = Inl e)"
proof -
  from resolution_type_check [of example_vertices example_faces PyOther None None False]
  have "trianglemeshes_to_voxelgrids example_vertices example_faces PyOther None None False = Inl TypeError"
    by simp
  moreover have neg: "(- 1 :: int) < 0"
    by simp
  moreover from resolution_type_check [of example_vertices example_faces "PyInt (- 1)" None None False] neg
  have "\<exists>e. trianglemeshes_to_voxelgrids example_vertices example_faces (PyInt (- 1)) None None False
         = Inl e"
    by blast
  ultimately show ?thesis
    by blast
qed

end
